theory Spec2Isabelle
  imports Main "HOL-Library.Multiset"
begin

section \<open>Worker requests: the request forwarder of packages/server\<close>

text \<open>
  A shallow embedding of \<^verbatim>\<open>packages/server/src/utilities/workerRequests.ts\<close>:
  \<^verbatim>\<open>ensureHeadersIsObject\<close>, \<^verbatim>\<open>request\<close> and \<^verbatim>\<open>checkResponse\<close>.
  A JavaScript exception is a value \<open>Inl e\<close> of the result type \<open>js_error + 'a\<close>;
  the in-place mutation of the request object is explicit: \<open>request\<close> returns the
  updated record.
\<close>

subsection \<open>JavaScript strings\<close>

text \<open>
  A JavaScript string is a sequence of UTF-16 code units. \<open>Latin c\<close> is a code unit
  below 256, the one of the character \<open>c\<close>; \<open>Wide n\<close> is the code unit \<open>256 + n\<close>.
  \<open>str\<close> writes a string of units below 256 as a literal.
\<close>

datatype code_unit = Latin char | Wide nat

type_synonym jstring = "code_unit list"

definition str :: "string \<Rightarrow> jstring" where
  "str s = map Latin s"

subsection \<open>JavaScript values and exceptions\<close>

datatype jsval =
    JUndefined
  | JNull
  | JBool bool
  | JNum int
  | JStr jstring
  | JArr "jsval list"
  | JObj "(jstring \<times> jsval) list"

text \<open>
  What the module can throw: a \<open>TypeError\<close> (of the header container, or of a
  property read on \<open>null\<close>), the \<open>SyntaxError\<close> of a body that is not JSON, the
  HTTP error raised by \<^verbatim>\<open>ctx.throw(status, msg)\<close>, and a bare string
  (\<^verbatim>\<open>throw msg\<close>).
\<close>

datatype js_error =
    TypeError jstring
  | SyntaxError
  | HttpError nat jstring
  | Thrown jstring

definition bnd :: "js_error + 'a \<Rightarrow> ('a \<Rightarrow> js_error + 'b) \<Rightarrow> js_error + 'b" where
  "bnd x f = (case x of Inl e \<Rightarrow> Inl e | Inr a \<Rightarrow> f a)"

text \<open>Truthiness of a value (\<^verbatim>\<open>if (v)\<close>, \<^verbatim>\<open>v && ...\<close>).\<close>

fun truthy :: "jsval \<Rightarrow> bool" where
  "truthy JUndefined = False"
| "truthy JNull = False"
| "truthy (JBool b) = b"
| "truthy (JNum n) = (n \<noteq> 0)"
| "truthy (JStr s) = (s \<noteq> [])"
| "truthy (JArr xs) = True"
| "truthy (JObj kvs) = True"

text \<open>
  \<^verbatim>\<open>Object.keys(v).length\<close>: \<open>undefined\<close> and \<open>null\<close> throw, a string and an array
  have one key per index, an object one per entry, the other primitives none.
\<close>

fun Object_keys_length :: "jsval \<Rightarrow> js_error + nat" where
  "Object_keys_length JUndefined = Inl (TypeError (str ''Cannot convert undefined or null to object''))"
| "Object_keys_length JNull = Inl (TypeError (str ''Cannot convert undefined or null to object''))"
| "Object_keys_length (JBool b) = Inr 0"
| "Object_keys_length (JNum n) = Inr 0"
| "Object_keys_length (JStr s) = Inr (length s)"
| "Object_keys_length (JArr xs) = Inr (length xs)"
| "Object_keys_length (JObj kvs) = Inr (length kvs)"

text \<open>\<^verbatim>\<open>typeof v === "object"\<close>.\<close>

fun typeof_object :: "jsval \<Rightarrow> bool" where
  "typeof_object JNull = True"
| "typeof_object (JArr xs) = True"
| "typeof_object (JObj kvs) = True"
| "typeof_object v = False"

text \<open>
  The property read \<^verbatim>\<open>v.message\<close>: a \<open>TypeError\<close> on \<open>undefined\<close> and \<open>null\<close>, the
  entry of an object, \<open>undefined\<close> where there is none.
\<close>

fun get_message :: "jsval \<Rightarrow> js_error + jsval" where
  "get_message JUndefined = Inl (TypeError (str ''Cannot read properties of undefined''))"
| "get_message JNull = Inl (TypeError (str ''Cannot read properties of null''))"
| "get_message (JObj kvs) =
     (case map_of kvs (str ''message'') of None \<Rightarrow> Inr JUndefined | Some m \<Rightarrow> Inr m)"
| "get_message v = Inr JUndefined"

text \<open>\<^verbatim>\<open>a ?? b\<close> takes \<open>b\<close> when \<open>a\<close> is \<open>undefined\<close> or \<open>null\<close>.\<close>

fun nullish :: "jsval \<Rightarrow> bool" where
  "nullish JUndefined = True"
| "nullish JNull = True"
| "nullish v = False"

text \<open>
  A value inside a template literal: a string stands for itself, any other value is
  converted by the runtime's \<open>String\<close>, a parameter \<open>T\<close> of the model.
\<close>

fun template :: "(jsval \<Rightarrow> jstring) \<Rightarrow> jsval \<Rightarrow> jstring" where
  "template T (JStr s) = s"
| "template T v = T v"

text \<open>\<^verbatim>\<open>s.includes(p)\<close>: \<open>p\<close> occurs in \<open>s\<close> as a contiguous substring.\<close>

fun starts_with :: "jstring \<Rightarrow> jstring \<Rightarrow> bool" where
  "starts_with s [] = True"
| "starts_with [] (p # ps) = False"
| "starts_with (c # cs) (p # ps) = (c = p \<and> starts_with cs ps)"

fun str_includes :: "jstring \<Rightarrow> jstring \<Rightarrow> bool" where
  "str_includes [] p = (p = [])"
| "str_includes (c # cs) p = (starts_with (c # cs) p \<or> str_includes cs p)"

subsection \<open>The header container (node-fetch \<open>Headers\<close>)\<close>

text \<open>
  \<open>Headers\<close> is imported from node-fetch. The container keeps, for each header name,
  the list of its values; names are matched without regard to case and the first
  spelling of a name is kept. \<open>set\<close> and \<open>append\<close> validate the name (a non-empty HTTP
  token) and the value (tab, printable ASCII, or a code unit from 128 to 255) and throw a
  \<open>TypeError\<close> otherwise.
\<close>

type_synonym headers = "(jstring \<times> jstring list) list"

text \<open>Lower case, as it matters for header names: on the letters A to Z.\<close>

definition lower_char :: "char \<Rightarrow> char" where
  "lower_char c =
     (case map_of (zip ''ABCDEFGHIJKLMNOPQRSTUVWXYZ'' ''abcdefghijklmnopqrstuvwxyz'') c of
        None \<Rightarrow> c
      | Some l \<Rightarrow> l)"

fun lower_unit :: "code_unit \<Rightarrow> code_unit" where
  "lower_unit (Latin c) = Latin (lower_char c)"
| "lower_unit (Wide n) = Wide n"

definition toLowerCase :: "jstring \<Rightarrow> jstring" where
  "toLowerCase s = map lower_unit s"

text \<open>
  A code unit of an HTTP token: a letter, a digit or one of
  \<^verbatim>\<open>^ _ ` - ! # $ % & ' * + . | ~\<close>.
\<close>

fun token_unit :: "code_unit \<Rightarrow> bool" where
  "token_unit (Latin c) =
     (let n = (of_char c :: nat) in
        (97 \<le> n \<and> n \<le> 122) \<or> (65 \<le> n \<and> n \<le> 90) \<or> (48 \<le> n \<and> n \<le> 57) \<or>
        c \<in> set ''^_`-!#$%&*+.|~'' \<or> n = 39)"
| "token_unit (Wide n) = False"

text \<open>
  A code unit of a header value: the tab, 32 to 126, or 128 to 255; no code unit
  above 255.
\<close>

fun value_unit :: "code_unit \<Rightarrow> bool" where
  "value_unit (Latin c) =
     (let n = (of_char c :: nat) in n = 9 \<or> (32 \<le> n \<and> n \<le> 126) \<or> 128 \<le> n)"
| "value_unit (Wide n) = False"

definition legal_name :: "jstring \<Rightarrow> bool" where
  "legal_name name = (name \<noteq> [] \<and> list_all token_unit name)"

definition legal_value :: "jstring \<Rightarrow> bool" where
  "legal_value v = list_all value_unit v"

definition validateName :: "jstring \<Rightarrow> js_error + unit" where
  "validateName name =
     (if legal_name name then Inr ()
      else Inl (TypeError (name @ (str '' is not a legal HTTP header name''))))"

definition validateValue :: "jstring \<Rightarrow> js_error + unit" where
  "validateValue v =
     (if legal_value v then Inr ()
      else Inl (TypeError (v @ (str '' is not a legal HTTP header value''))))"

text \<open>The values stored under a name, if the name is there.\<close>

fun lookup :: "headers \<Rightarrow> jstring \<Rightarrow> jstring list option" where
  "lookup [] name = None"
| "lookup ((k, vs) # m) name =
     (if toLowerCase k = toLowerCase name then Some vs else lookup m name)"

definition values_of :: "headers \<Rightarrow> jstring \<Rightarrow> jstring list" where
  "values_of h name = (case lookup h name of None \<Rightarrow> [] | Some vs \<Rightarrow> vs)"

text \<open>The names of a container, as its iteration gives them: in lower case.\<close>

definition names_of :: "headers \<Rightarrow> jstring set" where
  "names_of h = toLowerCase ` fst ` set h"

fun join :: "jstring list \<Rightarrow> jstring" where
  "join [] = []"
| "join [v] = v"
| "join (v # w # vs) = v @ (str '', '') @ join (w # vs)"

text \<open>\<^verbatim>\<open>headers.get(name)\<close>: the values joined by a comma and a space, or \<open>null\<close>.\<close>

definition Headers_get :: "headers \<Rightarrow> jstring \<Rightarrow> jstring option" where
  "Headers_get h name = map_option join (lookup h name)"

fun put :: "headers \<Rightarrow> jstring \<Rightarrow> jstring \<Rightarrow> headers" where
  "put [] name v = [(name, [v])]"
| "put ((k, vs) # m) name v =
     (if toLowerCase k = toLowerCase name then (k, [v]) # m else (k, vs) # put m name v)"

fun push :: "headers \<Rightarrow> jstring \<Rightarrow> jstring \<Rightarrow> headers" where
  "push [] name v = [(name, [v])]"
| "push ((k, vs) # m) name v =
     (if toLowerCase k = toLowerCase name then (k, vs @ [v]) # m else (k, vs) # push m name v)"

definition Headers_set :: "headers \<Rightarrow> jstring \<Rightarrow> jstring \<Rightarrow> js_error + headers" where
  "Headers_set h name v =
     bnd (validateName name) (\<lambda>_. bnd (validateValue v) (\<lambda>_. Inr (put h name v)))"

definition Headers_append :: "headers \<Rightarrow> jstring \<Rightarrow> jstring \<Rightarrow> js_error + headers" where
  "Headers_append h name v =
     bnd (validateName name) (\<lambda>_. bnd (validateValue v) (\<lambda>_. Inr (push h name v)))"

subsection \<open>ensureHeadersIsObject\<close>

text \<open>
  \<open>HeadersInit\<close>: a container, an array of string arrays, or a plain object (its
  entries in enumeration order, the keys distinct); \<open>HUndefined\<close> when the request
  has no \<open>headers\<close> field.
\<close>

datatype headers_init =
    HUndefined
  | HHeaders headers
  | HPairs "jstring list list"
  | HObject "(jstring \<times> jstring) list"

text \<open>
  The destructuring \<^verbatim>\<open>[key, value]\<close> of one array element: a missing position is
  \<open>undefined\<close>, which the container turns into the string \<open>undefined\<close>.
\<close>

fun destructure :: "jstring list \<Rightarrow> jstring \<times> jstring" where
  "destructure [] = (str ''undefined'', str ''undefined'')"
| "destructure [k] = (k, str ''undefined'')"
| "destructure (k # v # rest) = (k, v)"

fun append_pairs :: "headers \<Rightarrow> (jstring \<times> jstring) list \<Rightarrow> js_error + headers" where
  "append_pairs h [] = Inr h"
| "append_pairs h ((key, v) # rest) = bnd (Headers_append h key v) (\<lambda>h'. append_pairs h' rest)"

fun ensureHeadersIsObject :: "headers_init \<Rightarrow> js_error + headers" where
  "ensureHeadersIsObject (HHeaders h) = Inr h"
| "ensureHeadersIsObject HUndefined = Inr []"
| "ensureHeadersIsObject (HPairs ps) = append_pairs [] (map destructure ps)"
| "ensureHeadersIsObject (HObject kvs) = append_pairs [] kvs"

subsection \<open>request\<close>

text \<open>
  The constants of \<^verbatim>\<open>constants.Header\<close> (backend-core) are parameters:
  \<open>Header_values\<close> is \<^verbatim>\<open>Object.values(constants.Header)\<close>, the allow-list, in
  declaration order.
\<close>

record header_consts =
  Header_values :: "jstring list"
  API_KEY :: jstring
  TENANT_ID :: jstring
  CORRELATION_ID :: jstring

text \<open>
  The ambient state the function reads: \<^verbatim>\<open>coreEnv.INTERNAL_API_KEY\<close>, the tenant
  identifier of the execution context and the correlation identifier.
\<close>

record env =
  INTERNAL_API_KEY :: "jstring option"
  tenantId :: "jstring option"
  correlationId :: jstring

text \<open>
  Modelled from the spec: \<^verbatim>\<open>tenancy.isTenantIdSet\<close> and \<^verbatim>\<open>tenancy.getTenantId\<close>
  (backend-core) are not in the sources: a tenant identifier is established in the
  ambient execution context or it is not.
\<close>

definition isTenantIdSet :: "env \<Rightarrow> bool" where
  "isTenantIdSet E = (tenantId E \<noteq> None)"

definition getTenantId :: "env \<Rightarrow> js_error + jstring" where
  "getTenantId E =
     (case tenantId E of None \<Rightarrow> Inl (Thrown (str ''Tenant id not found'')) | Some t \<Rightarrow> Inr t)"

text \<open>
  Modelled from the spec: \<^verbatim>\<open>logging.correlation.setHeader\<close> (backend-core) is not in
  the sources: the correlation facility gives a string token, and the step stamps it
  on the outbound headers under the correlation-ID header name. The step has no
  failure; the token is written as it is.
\<close>

definition setHeader :: "header_consts \<Rightarrow> env \<Rightarrow> headers \<Rightarrow> headers" where
  "setHeader K E h = put h (CORRELATION_ID K) (correlationId E)"

text \<open>A value of an inbound header of the request context: one string or a list.\<close>

datatype header_value = Single jstring | Multi "jstring list"

text \<open>
  The request context: \<open>ctx_headers\<close> is \<^verbatim>\<open>ctx.headers\<close>, an object given by its
  entries, read by \<open>map_of\<close>; \<open>None\<close> when the context has no headers.
\<close>

record ctx =
  ctx_headers :: "(jstring \<times> header_value) list option"

record request_init =
  http_method :: "jstring option"
  headers :: headers_init
  body :: "jsval option"
  ctx :: "ctx option"

text \<open>The inner loop of lines 59-61: every value of a list is appended.\<close>

fun append_all :: "headers \<Rightarrow> jstring \<Rightarrow> jstring list \<Rightarrow> js_error + headers" where
  "append_all h header [] = Inr h"
| "append_all h header (v # vs) = bnd (Headers_append h header v) (\<lambda>h'. append_all h' header vs)"

text \<open>The loop of lines 52-65 over the allow-list.\<close>

fun copy_headers ::
  "(jstring \<times> header_value) list \<Rightarrow> jstring list \<Rightarrow> headers \<Rightarrow> js_error + headers" where
  "copy_headers ih [] h = Inr h"
| "copy_headers ih (header # rest) h =
     (case map_of ih header of
        None \<Rightarrow> copy_headers ih rest h
      | Some (Multi vs) \<Rightarrow> bnd (append_all h header vs) (copy_headers ih rest)
      | Some (Single v) \<Rightarrow> bnd (Headers_set h header v) (copy_headers ih rest))"

text \<open>Lines 45-66: the API key without a context, the allow-listed headers with one.\<close>

definition auth_headers :: "header_consts \<Rightarrow> env \<Rightarrow> ctx option \<Rightarrow> headers \<Rightarrow> js_error + headers" where
  "auth_headers K E c h =
     (case c of
        None \<Rightarrow>
          (case INTERNAL_API_KEY E of
             None \<Rightarrow> Inr h
           | Some k \<Rightarrow> if k \<noteq> [] then Headers_set h (API_KEY K) k else Inr h)
      | Some cx \<Rightarrow>
          (case ctx_headers cx of
             None \<Rightarrow> Inr h
           | Some ih \<Rightarrow> copy_headers ih (Header_values K) h))"

text \<open>Lines 69-71.\<close>

definition apply_tenancy :: "header_consts \<Rightarrow> env \<Rightarrow> headers \<Rightarrow> js_error + headers" where
  "apply_tenancy K E h =
     (if isTenantIdSet E then bnd (getTenantId E) (\<lambda>t. Headers_set h (TENANT_ID K) t)
      else Inr h)"

text \<open>
  Lines 72-80; \<open>S\<close> is \<^verbatim>\<open>JSON.stringify\<close>. The body of the result is \<open>None\<close> when the
  field has been deleted.
\<close>

definition has_content :: "jsval option \<Rightarrow> js_error + bool" where
  "has_content b =
     (case b of
        None \<Rightarrow> Inr False
      | Some v \<Rightarrow> if truthy v then bnd (Object_keys_length v) (\<lambda>n. Inr (0 < n)) else Inr False)"

definition apply_body ::
  "(jsval \<Rightarrow> jstring) \<Rightarrow> jsval option \<Rightarrow> headers \<Rightarrow> js_error + headers \<times> jsval option" where
  "apply_body S b h =
     bnd (has_content b) (\<lambda>c.
       if c then
         bnd (Headers_set h (str ''Content-Type'') (str ''application/json'')) (\<lambda>h'.
           Inr (h', map_option (\<lambda>v. if typeof_object v then JStr (S v) else v) b))
       else Inr (h, None))"

definition request ::
  "header_consts \<Rightarrow> (jsval \<Rightarrow> jstring) \<Rightarrow> env \<Rightarrow> request_init \<Rightarrow> js_error + request_init" where
  "request K S E req =
     bnd (ensureHeadersIsObject (headers req)) (\<lambda>h0.
     bnd (auth_headers K E (ctx req) h0) (\<lambda>h1.
     bnd (apply_tenancy K E h1) (\<lambda>h2.
     bnd (apply_body S (body req) h2) (\<lambda>(h3, b).
       Inr (req\<lparr>headers := HHeaders (setHeader K E h3), body := b, ctx := None\<rparr>)))))"

subsection \<open>checkResponse\<close>

text \<open>
  A received response: its status, \<^verbatim>\<open>headers.get("content-type")\<close>, and what
  \<^verbatim>\<open>text()\<close> and \<^verbatim>\<open>json()\<close> give; \<open>json\<close> is \<open>Inl SyntaxError\<close> when the body
  is not JSON.
\<close>

record response =
  status :: nat
  content_type :: "jstring option"
  text_body :: jstring
  json_body :: "js_error + jsval"

text \<open>\<^verbatim>\<open>response.headers.get("content-type")?.includes("json")\<close>.\<close>

definition is_json :: "response \<Rightarrow> bool" where
  "is_json r = (case content_type r of None \<Rightarrow> False | Some t \<Rightarrow> str_includes t (str ''json''))"

text \<open>Lines 95-101; \<open>S\<close> is \<^verbatim>\<open>JSON.stringify\<close>.\<close>

definition responseErrorMessage :: "(jsval \<Rightarrow> jstring) \<Rightarrow> response \<Rightarrow> js_error + jsval" where
  "responseErrorMessage S r =
     (if is_json r then
        bnd (json_body r) (\<lambda>error.
        bnd (get_message error) (\<lambda>m.
          Inr (if nullish m then JStr (S error) else m)))
      else Inr (JStr (text_body r)))"

definition compose_msg :: "(jsval \<Rightarrow> jstring) \<Rightarrow> jstring \<Rightarrow> jsval \<Rightarrow> jstring" where
  "compose_msg T errorMsg d = (str ''Unable to '') @ errorMsg @ (str '' - '') @ template T d"

text \<open>
  \<open>T\<close> is the runtime's \<open>String\<close> conversion; \<open>c\<close> is the optional request context,
  whose \<^verbatim>\<open>throw\<close> raises an HTTP error.
\<close>

definition checkResponse ::
  "(jsval \<Rightarrow> jstring) \<Rightarrow> (jsval \<Rightarrow> jstring) \<Rightarrow> response \<Rightarrow> jstring \<Rightarrow> ctx option
     \<Rightarrow> js_error + jsval" where
  "checkResponse S T r errorMsg c =
     (if 300 \<le> status r then
        bnd (responseErrorMessage S r) (\<lambda>d.
          let msg = compose_msg T errorMsg d in
          (case c of
             Some cx \<Rightarrow> Inl (HttpError (if status r = 0 then 500 else status r) msg)
           | None \<Rightarrow> Inl (Thrown msg)))
      else json_body r)"

subsection \<open>What the header container accepts\<close>

text \<open>
  The names and values that \<open>request\<close> hands to \<open>set\<close> and \<open>append\<close>, collected by
  the place they come from: the caller's headers, the API key or the inbound headers
  of the context, and the ambient tenant identifier. \<open>container_error\<close> says that
  an exception is the \<open>TypeError\<close> of the container for an illegal name or value.
\<close>

definition legal_pair :: "jstring \<times> jstring \<Rightarrow> bool" where
  "legal_pair p = (legal_name (fst p) \<and> legal_value (snd p))"

fun legal_init :: "headers_init \<Rightarrow> bool" where
  "legal_init HUndefined = True"
| "legal_init (HHeaders h) = True"
| "legal_init (HPairs ps) = list_all legal_pair (map destructure ps)"
| "legal_init (HObject kvs) = list_all legal_pair kvs"

fun legal_copy :: "jstring \<Rightarrow> header_value option \<Rightarrow> bool" where
  "legal_copy header None = True"
| "legal_copy header (Some (Single v)) = (legal_name header \<and> legal_value v)"
| "legal_copy header (Some (Multi vs)) = (vs = [] \<or> legal_name header \<and> list_all legal_value vs)"

definition legal_inbound :: "header_consts \<Rightarrow> (jstring \<times> header_value) list \<Rightarrow> bool" where
  "legal_inbound K ih = list_all (\<lambda>header. legal_copy header (map_of ih header)) (Header_values K)"

definition legal_auth :: "header_consts \<Rightarrow> env \<Rightarrow> ctx option \<Rightarrow> bool" where
  "legal_auth K E c =
     (case c of
        None \<Rightarrow>
          (case INTERNAL_API_KEY E of
             None \<Rightarrow> True
           | Some k \<Rightarrow> k = [] \<or> legal_name (API_KEY K) \<and> legal_value k)
      | Some cx \<Rightarrow>
          (case ctx_headers cx of None \<Rightarrow> True | Some ih \<Rightarrow> legal_inbound K ih))"

definition legal_tenant :: "header_consts \<Rightarrow> env \<Rightarrow> bool" where
  "legal_tenant K E =
     (case tenantId E of None \<Rightarrow> True | Some t \<Rightarrow> legal_name (TENANT_ID K) \<and> legal_value t)"

definition container_error :: "js_error \<Rightarrow> bool" where
  "container_error e =
     (\<exists>x. e = TypeError (x @ str '' is not a legal HTTP header name'') \<or>
          e = TypeError (x @ str '' is not a legal HTTP header value''))"

subsection \<open>Equivalent header containers\<close>

text \<open>
  A container carries a multiset of name/value pairs when its names are the names of
  the pairs (in lower case) and, under every name, its values are the values of the
  pairs of that name, with their multiplicities. Two containers are equivalent when
  they have the same names and, under every name, the same values with the same
  multiplicities, in whatever order.
\<close>

definition carries :: "headers \<Rightarrow> (jstring \<times> jstring) multiset \<Rightarrow> bool" where
  "carries h M =
     (names_of h = (\<lambda>p. toLowerCase (fst p)) ` set_mset M \<and>
      (\<forall>n. mset (values_of h n) =
           image_mset snd (filter_mset (\<lambda>p. toLowerCase n = toLowerCase (fst p)) M)))"

definition equivalent_headers :: "headers \<Rightarrow> headers \<Rightarrow> bool" where
  "equivalent_headers h h' =
     (names_of h = names_of h' \<and> (\<forall>n. mset (values_of h n) = mset (values_of h' n)))"

subsection \<open>Example inputs\<close>

text \<open>
  An instance of the header constants, a serializer and an ambient state, used
  where a theorem is run on a concrete call.
\<close>

definition example_consts :: header_consts where
  "example_consts =
     \<lparr>Header_values =
        [str ''x-budibase-api-key'', str ''x-budibase-app-id'', str ''x-budibase-tenant-id'',
         str ''x-budibase-correlation-id'', str ''authorization''],
      API_KEY = str ''x-budibase-api-key'',
      TENANT_ID = str ''x-budibase-tenant-id'',
      CORRELATION_ID = str ''x-budibase-correlation-id''\<rparr>"

definition example_stringify :: "jsval \<Rightarrow> jstring" where
  \<open>example_stringify v =
     (if v = JObj [(str ''userId'', JStr (str ''u1''))] then (str ''{"userId":"u1"}'')
      else if v = JObj [(str ''code'', JNum 7)] then (str ''{"code":7}'')
      else (str ''null''))\<close>

definition example_String :: "jsval \<Rightarrow> jstring" where
  "example_String v = (if v = JNum 7 then (str ''7'') else (str ''[object Object]''))"

definition example_env :: env where
  "example_env =
     \<lparr>INTERNAL_API_KEY = Some (str ''secret''), tenantId = Some (str ''tenant1''),
      correlationId = str ''c0ffee''\<rparr>"

section \<open>Properties\<close>

subsection \<open>Sequencing and the header container\<close>

lemma bnd_Inl [simp]: "bnd (Inl e) f = Inl e"
  and bnd_Inr [simp]: "bnd (Inr a) f = f a"
  by (simp_all add: bnd_def)

lemma str_eq_Nil [simp]: "str s = [] \<longleftrightarrow> s = []"
  by (simp add: str_def)


lemma bnd_eq_Inr: "bnd x f = Inr y \<longleftrightarrow> (\<exists>a. x = Inr a \<and> f a = Inr y)"
  by (cases x) simp_all

lemma Headers_set_Inr:
  "Headers_set h name v = Inr h' \<longleftrightarrow> legal_name name \<and> legal_value v \<and> h' = put h name v"
  by (auto simp: Headers_set_def validateName_def validateValue_def)

lemma Headers_append_Inr:
  "Headers_append h name v = Inr h' \<longleftrightarrow> legal_name name \<and> legal_value v \<and> h' = push h name v"
  by (auto simp: Headers_append_def validateName_def validateValue_def)

lemma lookup_put:
  "lookup (put h name v) m =
     (if toLowerCase m = toLowerCase name then Some [v] else lookup h m)"
  by (induction h) auto

lemma lookup_push:
  "lookup (push h name v) m =
     (if toLowerCase m = toLowerCase name then Some (values_of h m @ [v]) else lookup h m)"
  by (induction h) (auto simp: values_of_def)

lemma lookup_cong: "toLowerCase m = toLowerCase n \<Longrightarrow> lookup h m = lookup h n"
  by (induction h) auto

lemma values_of_cong: "toLowerCase m = toLowerCase n \<Longrightarrow> values_of h m = values_of h n"
  using lookup_cong [of m n h] by (simp add: values_of_def)

lemma values_of_put:
  "values_of (put h name v) m =
     (if toLowerCase m = toLowerCase name then [v] else values_of h m)"
  by (simp add: values_of_def lookup_put)

lemma values_of_push:
  "values_of (push h name v) m =
     (if toLowerCase m = toLowerCase name then values_of h m @ [v] else values_of h m)"
  by (simp add: values_of_def lookup_push)

subsection \<open>The steps of request\<close>

lemma request_Inr:
  "request K S E req = Inr d \<longleftrightarrow>
     (\<exists>h0 h1 h2 h3 b h4.
        ensureHeadersIsObject (headers req) = Inr h0 \<and>
        auth_headers K E (ctx req) h0 = Inr h1 \<and>
        apply_tenancy K E h1 = Inr h2 \<and>
        apply_body S (body req) h2 = Inr (h3, b) \<and>
        setHeader K E h3 = h4 \<and>
        d = req\<lparr>headers := HHeaders h4, body := b, ctx := None\<rparr>)"
  unfolding request_def by (auto simp: bnd_eq_Inr)

lemma setHeader_lookup:
  assumes "setHeader K E h = h'"
  shows "lookup h' n =
    (if toLowerCase n = toLowerCase (CORRELATION_ID K) then Some [correlationId E]
     else lookup h n)"
  using assms by (auto simp: setHeader_def lookup_put)

lemma apply_tenancy_lookup:
  assumes "apply_tenancy K E h = Inr h'"
  shows "lookup h' n =
    (case tenantId E of
       None \<Rightarrow> lookup h n
     | Some t \<Rightarrow> if toLowerCase n = toLowerCase (TENANT_ID K) then Some [t] else lookup h n)"
  using assms
  by (auto simp: apply_tenancy_def isTenantIdSet_def getTenantId_def Headers_set_Inr lookup_put
      split: option.splits if_splits)

lemma has_content_simps:
  "has_content None = Inr False"
  "has_content (Some (JObj kvs)) = Inr (kvs \<noteq> [])"
  "has_content (Some (JStr s)) = Inr (s \<noteq> [])"
  by (simp_all add: has_content_def)

lemma has_content_total: "\<exists>c. has_content b = Inr c"
proof (cases b)
  case None
  then show ?thesis by (auto simp: has_content_def)
next
  case (Some v)
  then show ?thesis by (cases v) (auto simp: has_content_def)
qed

lemma apply_body_lookup:
  assumes "apply_body S b h = Inr (h', b')"
  shows "lookup h' n =
    (if has_content b = Inr True \<and> toLowerCase n = toLowerCase (str ''Content-Type'')
     then Some [str ''application/json''] else lookup h n)"
proof -
  obtain c where c: "has_content b = Inr c" using has_content_total by blast
  show ?thesis using assms c
    by (cases c) (auto simp: apply_body_def Headers_set_Inr lookup_put bnd_eq_Inr)
qed

lemma apply_body_body:
  assumes "apply_body S b h = Inr (h', b')"
  shows "b' = (if has_content b = Inr True
               then map_option (\<lambda>v. if typeof_object v then JStr (S v) else v) b else None)"
proof -
  obtain c where c: "has_content b = Inr c" using has_content_total by blast
  show ?thesis using assms c
    by (cases c) (auto simp: apply_body_def bnd_eq_Inr)
qed

lemma apply_tenancy_api_key [simp]:
  "apply_tenancy K (E\<lparr>INTERNAL_API_KEY := k\<rparr>) h = apply_tenancy K E h"
  by (simp add: apply_tenancy_def isTenantIdSet_def getTenantId_def)

lemma setHeader_api_key [simp]:
  "setHeader K (E\<lparr>INTERNAL_API_KEY := k\<rparr>) h = setHeader K E h"
  by (simp add: setHeader_def)

lemma auth_headers_no_ctx:
  "auth_headers K E None h =
     (case INTERNAL_API_KEY E of
        None \<Rightarrow> Inr h
      | Some k \<Rightarrow> if k \<noteq> [] then Headers_set h (API_KEY K) k else Inr h)"
  by (simp add: auth_headers_def)

lemma auth_headers_ctx:
  "auth_headers K E (Some c) h =
     (case ctx_headers c of None \<Rightarrow> Inr h | Some ih \<Rightarrow> copy_headers ih (Header_values K) h)"
  by (simp add: auth_headers_def)

lemma example_names_differ:
  "toLowerCase (CORRELATION_ID example_consts) \<noteq> toLowerCase (str ''Content-Type'')"
  "toLowerCase (TENANT_ID example_consts) \<noteq> toLowerCase (str ''Content-Type'')"
  "toLowerCase (TENANT_ID example_consts) \<noteq> toLowerCase (CORRELATION_ID example_consts)"
  "toLowerCase (API_KEY example_consts) \<noteq> toLowerCase (str ''Content-Type'')"
  "toLowerCase (API_KEY example_consts) \<noteq> toLowerCase (CORRELATION_ID example_consts)"
  "toLowerCase (API_KEY example_consts) \<noteq> toLowerCase (TENANT_ID example_consts)"
  by (simp_all add: example_consts_def toLowerCase_def lower_char_def str_def)

subsection \<open>The body and the content type\<close>

text \<open>
  C2. When \<open>request\<close> returns a descriptor: a body that is a non-empty object is
  replaced by its JSON serialization and the \<open>Content-Type\<close> header is
  \<open>application/json\<close>; an absent body or an empty object leaves the descriptor
  without a body field. (The correlation-ID header name is taken to be another name
  than \<open>Content-Type\<close>.)
\<close>

theorem request_body_content_type:
  assumes "request K S E req = Inr d"
    and "toLowerCase (CORRELATION_ID K) \<noteq> toLowerCase (str ''Content-Type'')"
  shows "(\<forall>kvs. body req = Some (JObj kvs) \<and> kvs \<noteq> [] \<longrightarrow>
            (\<exists>h. headers d = HHeaders h \<and>
                 Headers_get h (str ''Content-Type'') = Some (str ''application/json'')) \<and>
            body d = Some (JStr (S (JObj kvs)))) \<and>
         (body req = None \<or> body req = Some (JObj []) \<longrightarrow> body d = None)"
proof -
  from assms(1) obtain h2 h3 b h4 where
    bd: "apply_body S (body req) h2 = Inr (h3, b)" and
    co: "setHeader K E h3 = h4" and
    d: "d = req\<lparr>headers := HHeaders h4, body := b, ctx := None\<rparr>"
    unfolding request_Inr by blast
  have b: "b = (if has_content (body req) = Inr True
               then map_option (\<lambda>v. if typeof_object v then JStr (S v) else v) (body req)
               else None)"
    using bd by (rule apply_body_body)
  have ct: "has_content (body req) = Inr True \<Longrightarrow>
      lookup h4 (str ''Content-Type'') = Some [str ''application/json'']"
    using setHeader_lookup [OF co, of "str ''Content-Type''"]
      apply_body_lookup [OF bd, of "str ''Content-Type''"] assms(2)
    by (simp split: option.splits)
  show ?thesis
    using b ct d by (auto simp: has_content_simps Headers_get_def)
qed

theorem request_body_content_type_witness:
  \<open>request example_consts example_stringify example_env
     \<lparr>http_method = Some (str ''POST''), headers = HUndefined,
      body = Some (JObj [(str ''userId'', JStr (str ''u1''))]), ctx = None\<rparr> =
   Inr \<lparr>http_method = Some (str ''POST''),
        headers = HHeaders
          [(str ''x-budibase-api-key'', [str ''secret'']), (str ''x-budibase-tenant-id'', [str ''tenant1'']),
           (str ''Content-Type'', [str ''application/json'']),
           (str ''x-budibase-correlation-id'', [str ''c0ffee''])],
        body = Some (JStr (str ''{"userId":"u1"}'')), ctx = None\<rparr> \<and>
   toLowerCase (CORRELATION_ID example_consts) \<noteq> toLowerCase (str ''Content-Type'') \<and>
   Headers_get
     [(str ''x-budibase-api-key'', [str ''secret'']), (str ''x-budibase-tenant-id'', [str ''tenant1'']),
      (str ''Content-Type'', [str ''application/json'']),
      (str ''x-budibase-correlation-id'', [str ''c0ffee''])] (str ''Content-Type'') =
     Some (str ''application/json'')\<close>
proof -
  have ev: \<open>request example_consts example_stringify example_env
     \<lparr>http_method = Some (str ''POST''), headers = HUndefined,
      body = Some (JObj [(str ''userId'', JStr (str ''u1''))]), ctx = None\<rparr> =
   Inr \<lparr>http_method = Some (str ''POST''),
        headers = HHeaders
          [(str ''x-budibase-api-key'', [str ''secret'']), (str ''x-budibase-tenant-id'', [str ''tenant1'']),
           (str ''Content-Type'', [str ''application/json'']),
           (str ''x-budibase-correlation-id'', [str ''c0ffee''])],
        body = Some (JStr (str ''{"userId":"u1"}'')), ctx = None\<rparr>\<close>
    by code_simp
  show ?thesis
    using request_body_content_type [OF ev example_names_differ(1)] ev example_names_differ(1)
    by simp
qed

subsection \<open>The success path of checkResponse\<close>

text \<open>
  C7. For a response with a status below 300, \<open>checkResponse\<close> returns what
  \<^verbatim>\<open>response.json()\<close> gives: the parsed body unchanged, or the parse failure, which
  is not recovered.
\<close>

theorem checkResponse_success:
  "status r < 300 \<Longrightarrow> checkResponse S T r errorMsg c = json_body r"
  by (simp add: checkResponse_def)

theorem checkResponse_success_witness:
  \<open>status \<lparr>status = 200, content_type = Some (str ''application/json''),
           text_body = str ''{"id": 1}'', json_body = Inr (JObj [(str ''id'', JNum 1)])\<rparr> < 300 \<and>
   checkResponse example_stringify example_String
     \<lparr>status = 200, content_type = Some (str ''application/json''),
      text_body = str ''{"id": 1}'', json_body = Inr (JObj [(str ''id'', JNum 1)])\<rparr>
     (str ''get user'') None = Inr (JObj [(str ''id'', JNum 1)])\<close>
  using checkResponse_success [of
      \<open>\<lparr>status = 200, content_type = Some (str ''application/json''),
        text_body = str ''{"id": 1}'', json_body = Inr (JObj [(str ''id'', JNum 1)])\<rparr>\<close>
      example_stringify example_String \<open>str ''get user''\<close> None]
  by simp

subsection \<open>The tenant header\<close>

text \<open>
  C3. When a tenant identifier is established in the ambient context, the returned
  descriptor carries the tenant-ID header with exactly that identifier, whether or
  not a request context was supplied and whatever the earlier steps (the API key,
  the headers copied from the context, the caller's own headers) stored under that
  name. (The tenant-ID header name is taken to differ from \<open>Content-Type\<close> and from
  the correlation-ID header name, which later steps write.)
\<close>

theorem request_tenant_header:
  assumes "request K S E req = Inr d"
    and "tenantId E = Some t"
    and "toLowerCase (TENANT_ID K) \<noteq> toLowerCase (str ''Content-Type'')"
    and "toLowerCase (TENANT_ID K) \<noteq> toLowerCase (CORRELATION_ID K)"
  shows "\<exists>h. headers d = HHeaders h \<and> Headers_get h (TENANT_ID K) = Some t"
proof -
  from assms(1) obtain h1 h2 h3 b h4 where
    te: "apply_tenancy K E h1 = Inr h2" and
    bd: "apply_body S (body req) h2 = Inr (h3, b)" and
    co: "setHeader K E h3 = h4" and
    d: "d = req\<lparr>headers := HHeaders h4, body := b, ctx := None\<rparr>"
    unfolding request_Inr by blast
  have "lookup h2 (TENANT_ID K) = Some [t]"
    using apply_tenancy_lookup [OF te, of "TENANT_ID K"] assms(2) by simp
  then have "lookup h3 (TENANT_ID K) = Some [t]"
    using apply_body_lookup [OF bd, of "TENANT_ID K"] assms(3) by simp
  then have "lookup h4 (TENANT_ID K) = Some [t]"
    using setHeader_lookup [OF co, of "TENANT_ID K"] assms(4) by (simp split: option.splits)
  then show ?thesis using d by (simp add: Headers_get_def)
qed

theorem request_tenant_header_witness:
  "request example_consts example_stringify example_env
     \<lparr>http_method = Some (str ''GET''), headers = HUndefined, body = None,
      ctx = Some \<lparr>ctx_headers = Some [(str ''x-budibase-tenant-id'', Single (str ''other'')),
                                      (str ''accept'', Single (str ''text/html''))]\<rparr>\<rparr> =
   Inr \<lparr>http_method = Some (str ''GET''),
        headers = HHeaders
          [(str ''x-budibase-tenant-id'', [str ''tenant1'']),
           (str ''x-budibase-correlation-id'', [str ''c0ffee''])],
        body = None, ctx = None\<rparr> \<and>
   tenantId example_env = Some (str ''tenant1'') \<and>
   toLowerCase (TENANT_ID example_consts) \<noteq> toLowerCase (str ''Content-Type'') \<and>
   toLowerCase (TENANT_ID example_consts) \<noteq> toLowerCase (CORRELATION_ID example_consts) \<and>
   Headers_get
     [(str ''x-budibase-tenant-id'', [str ''tenant1'']), (str ''x-budibase-correlation-id'', [str ''c0ffee''])]
     (TENANT_ID example_consts) = Some (str ''tenant1'')"
proof -
  have ev: "request example_consts example_stringify example_env
     \<lparr>http_method = Some (str ''GET''), headers = HUndefined, body = None,
      ctx = Some \<lparr>ctx_headers = Some [(str ''x-budibase-tenant-id'', Single (str ''other'')),
                                      (str ''accept'', Single (str ''text/html''))]\<rparr>\<rparr> =
   Inr \<lparr>http_method = Some (str ''GET''),
        headers = HHeaders
          [(str ''x-budibase-tenant-id'', [str ''tenant1'']),
           (str ''x-budibase-correlation-id'', [str ''c0ffee''])],
        body = None, ctx = None\<rparr>"
    by code_simp
  have t: "tenantId example_env = Some (str ''tenant1'')"
    by (simp add: example_env_def)
  show ?thesis
    using request_tenant_header [OF ev t example_names_differ(2) example_names_differ(3)]
      ev t example_names_differ(2) example_names_differ(3)
    by simp
qed

subsection \<open>A supplied context and the configured API key\<close>

text \<open>
  C9. When a request context is supplied, the configured internal API key plays no
  part: whatever \<^verbatim>\<open>INTERNAL_API_KEY\<close> holds, \<open>request\<close> gives the same result, also
  for a context without inbound headers. The branch that attaches the key is the
  one of an absent context.
\<close>

theorem request_ctx_ignores_api_key:
  "ctx req = Some c \<Longrightarrow>
     request K S (E\<lparr>INTERNAL_API_KEY := k\<rparr>) req = request K S E req"
  by (simp add: request_def auth_headers_ctx)

theorem request_ctx_ignores_api_key_witness:
  "ctx \<lparr>http_method = Some (str ''DELETE''), headers = HUndefined, body = None,
        ctx = Some \<lparr>ctx_headers = None\<rparr>\<rparr> = Some \<lparr>ctx_headers = None\<rparr> \<and>
   request example_consts example_stringify (example_env\<lparr>INTERNAL_API_KEY := None\<rparr>)
     \<lparr>http_method = Some (str ''DELETE''), headers = HUndefined, body = None,
      ctx = Some \<lparr>ctx_headers = None\<rparr>\<rparr> =
   request example_consts example_stringify example_env
     \<lparr>http_method = Some (str ''DELETE''), headers = HUndefined, body = None,
      ctx = Some \<lparr>ctx_headers = None\<rparr>\<rparr> \<and>
   request example_consts example_stringify example_env
     \<lparr>http_method = Some (str ''DELETE''), headers = HUndefined, body = None,
      ctx = Some \<lparr>ctx_headers = None\<rparr>\<rparr> =
   Inr \<lparr>http_method = Some (str ''DELETE''),
        headers = HHeaders
          [(str ''x-budibase-tenant-id'', [str ''tenant1'']),
           (str ''x-budibase-correlation-id'', [str ''c0ffee''])],
        body = None, ctx = None\<rparr>"
proof -
  have ev: "request example_consts example_stringify example_env
     \<lparr>http_method = Some (str ''DELETE''), headers = HUndefined, body = None,
      ctx = Some \<lparr>ctx_headers = None\<rparr>\<rparr> =
   Inr \<lparr>http_method = Some (str ''DELETE''),
        headers = HHeaders
          [(str ''x-budibase-tenant-id'', [str ''tenant1'']),
           (str ''x-budibase-correlation-id'', [str ''c0ffee''])],
        body = None, ctx = None\<rparr>"
    by code_simp
  show ?thesis
    using ev request_ctx_ignores_api_key [where
        req = "\<lparr>http_method = Some (str ''DELETE''), headers = HUndefined, body = None,
          ctx = Some \<lparr>ctx_headers = None\<rparr>\<rparr>"
        and c = "\<lparr>ctx_headers = None\<rparr>" and K = example_consts
        and S = example_stringify and E = example_env and k = None]
    by simp
qed

subsection \<open>A string body\<close>

text \<open>
  C10. A body that is a non-empty string is forwarded as it is, and the
  \<open>Content-Type\<close> header is still set to \<open>application/json\<close>; a body that the
  descriptor keeps in another form than it came in is of object type and has been
  replaced by its JSON serialization. (The correlation-ID header name is taken to
  be another name than \<open>Content-Type\<close>.)
\<close>

theorem request_string_body_verbatim:
  assumes "request K S E req = Inr d"
    and "toLowerCase (CORRELATION_ID K) \<noteq> toLowerCase (str ''Content-Type'')"
  shows "(\<forall>s. body req = Some (JStr s) \<and> s \<noteq> [] \<longrightarrow>
            body d = Some (JStr s) \<and>
            (\<exists>h. headers d = HHeaders h \<and>
                 Headers_get h (str ''Content-Type'') = Some (str ''application/json''))) \<and>
         (\<forall>v. body req = Some v \<and> body d \<noteq> None \<and> body d \<noteq> Some v \<longrightarrow>
            typeof_object v \<and> body d = Some (JStr (S v)))"
proof -
  from assms(1) obtain h2 h3 b h4 where
    bd: "apply_body S (body req) h2 = Inr (h3, b)" and
    co: "setHeader K E h3 = h4" and
    d: "d = req\<lparr>headers := HHeaders h4, body := b, ctx := None\<rparr>"
    unfolding request_Inr by blast
  have b: "b = (if has_content (body req) = Inr True
               then map_option (\<lambda>v. if typeof_object v then JStr (S v) else v) (body req)
               else None)"
    using bd by (rule apply_body_body)
  have ct: "has_content (body req) = Inr True \<Longrightarrow>
      lookup h4 (str ''Content-Type'') = Some [str ''application/json'']"
    using setHeader_lookup [OF co, of "str ''Content-Type''"]
      apply_body_lookup [OF bd, of "str ''Content-Type''"] assms(2)
    by (simp split: option.splits)
  show ?thesis
    using b ct d by (auto simp: has_content_simps Headers_get_def split: if_splits)
qed

theorem request_string_body_verbatim_witness:
  \<open>request example_consts example_stringify (example_env\<lparr>tenantId := None\<rparr>)
     \<lparr>http_method = Some (str ''POST''), headers = HUndefined,
      body = Some (JStr (str ''{"userId":"u1"}'')), ctx = None\<rparr> =
   Inr \<lparr>http_method = Some (str ''POST''),
        headers = HHeaders
          [(str ''x-budibase-api-key'', [str ''secret'']),
           (str ''Content-Type'', [str ''application/json'']),
           (str ''x-budibase-correlation-id'', [str ''c0ffee''])],
        body = Some (JStr (str ''{"userId":"u1"}'')), ctx = None\<rparr> \<and>
   toLowerCase (CORRELATION_ID example_consts) \<noteq> toLowerCase (str ''Content-Type'') \<and>
   Headers_get
     [(str ''x-budibase-api-key'', [str ''secret'']), (str ''Content-Type'', [str ''application/json'']),
      (str ''x-budibase-correlation-id'', [str ''c0ffee''])] (str ''Content-Type'') =
     Some (str ''application/json'')\<close>
proof -
  have ev: \<open>request example_consts example_stringify (example_env\<lparr>tenantId := None\<rparr>)
     \<lparr>http_method = Some (str ''POST''), headers = HUndefined,
      body = Some (JStr (str ''{"userId":"u1"}'')), ctx = None\<rparr> =
   Inr \<lparr>http_method = Some (str ''POST''),
        headers = HHeaders
          [(str ''x-budibase-api-key'', [str ''secret'']),
           (str ''Content-Type'', [str ''application/json'']),
           (str ''x-budibase-correlation-id'', [str ''c0ffee''])],
        body = Some (JStr (str ''{"userId":"u1"}'')), ctx = None\<rparr>\<close>
    by code_simp
  show ?thesis
    using request_string_body_verbatim [OF ev example_names_differ(1)]
      ev example_names_differ(1)
    by simp
qed

subsection \<open>The failure path of checkResponse\<close>




subsection \<open>The API key of a call without a context\<close>

text \<open>
  C6, as stated, fails in its second half: without a context and without a
  configured key, a caller who passes an API-key header of their own finds it in the
  result.
\<close>

theorem request_api_key_counterexample:
  "request example_consts example_stringify
     \<lparr>INTERNAL_API_KEY = None, tenantId = None, correlationId = str ''c0ffee''\<rparr>
     \<lparr>http_method = Some (str ''GET''), headers = HObject [(str ''x-budibase-api-key'', str ''abc'')],
      body = None, ctx = None\<rparr> =
   Inr \<lparr>http_method = Some (str ''GET''),
        headers = HHeaders
          [(str ''x-budibase-api-key'', [str ''abc'']),
           (str ''x-budibase-correlation-id'', [str ''c0ffee''])],
        body = None, ctx = None\<rparr> \<and>
   Headers_get
     [(str ''x-budibase-api-key'', [str ''abc'']),
      (str ''x-budibase-correlation-id'', [str ''c0ffee''])] (API_KEY example_consts) =
     Some (str ''abc'')"
  by code_simp

text \<open>
  C6, amended. For a call without a request context that returns a descriptor: a
  configured, non-empty internal API key is the value of the API-key header of the
  result; when no key is configured the API-key header of the result is the one of
  the caller's own headers, so there is none when the caller passed none. (The
  API-key header name is taken to differ from the tenant-ID and correlation-ID
  header names and from \<open>Content-Type\<close>.)
\<close>

theorem request_api_key_without_ctx:
  assumes "request K S E req = Inr d"
    and "ctx req = None"
    and "toLowerCase (API_KEY K) \<noteq> toLowerCase (TENANT_ID K)"
    and "toLowerCase (API_KEY K) \<noteq> toLowerCase (str ''Content-Type'')"
    and "toLowerCase (API_KEY K) \<noteq> toLowerCase (CORRELATION_ID K)"
  shows "\<exists>h0 h. ensureHeadersIsObject (headers req) = Inr h0 \<and> headers d = HHeaders h \<and>
           (\<forall>k. INTERNAL_API_KEY E = Some k \<and> k \<noteq> [] \<longrightarrow>
                Headers_get h (API_KEY K) = Some k) \<and>
           (INTERNAL_API_KEY E = None \<or> INTERNAL_API_KEY E = Some [] \<longrightarrow>
                Headers_get h (API_KEY K) = Headers_get h0 (API_KEY K))"
proof -
  from assms(1) obtain h0 h1 h2 h3 b h4 where
    en: "ensureHeadersIsObject (headers req) = Inr h0" and
    au: "auth_headers K E (ctx req) h0 = Inr h1" and
    te: "apply_tenancy K E h1 = Inr h2" and
    bd: "apply_body S (body req) h2 = Inr (h3, b)" and
    co: "setHeader K E h3 = h4" and
    d: "d = req\<lparr>headers := HHeaders h4, body := b, ctx := None\<rparr>"
    unfolding request_Inr by blast
  have "lookup h4 (API_KEY K) = lookup h3 (API_KEY K)"
    using setHeader_lookup [OF co, of "API_KEY K"] assms(5) by (simp split: option.splits)
  also have "\<dots> = lookup h2 (API_KEY K)"
    using apply_body_lookup [OF bd, of "API_KEY K"] assms(4) by simp
  also have "\<dots> = lookup h1 (API_KEY K)"
    using apply_tenancy_lookup [OF te, of "API_KEY K"] assms(3) by (simp split: option.splits)
  finally have keep: "lookup h4 (API_KEY K) = lookup h1 (API_KEY K)" .
  have set_key: "lookup h1 (API_KEY K) = Some [k]"
    if "INTERNAL_API_KEY E = Some k" "k \<noteq> []" for k
    using au that assms(2) by (auto simp: auth_headers_no_ctx Headers_set_Inr lookup_put)
  have no_key: "h1 = h0" if "INTERNAL_API_KEY E = None \<or> INTERNAL_API_KEY E = Some []"
    using au that assms(2) by (auto simp: auth_headers_no_ctx)
  show ?thesis
    using en d keep set_key no_key by (auto simp: Headers_get_def)
qed

theorem request_api_key_without_ctx_witness:
  "request example_consts example_stringify example_env
     \<lparr>http_method = Some (str ''GET''), headers = HUndefined, body = None, ctx = None\<rparr> =
   Inr \<lparr>http_method = Some (str ''GET''),
        headers = HHeaders
          [(str ''x-budibase-api-key'', [str ''secret'']), (str ''x-budibase-tenant-id'', [str ''tenant1'']),
           (str ''x-budibase-correlation-id'', [str ''c0ffee''])],
        body = None, ctx = None\<rparr> \<and>
   ctx \<lparr>http_method = Some (str ''GET''), headers = HUndefined, body = None, ctx = None\<rparr> = None \<and>
   toLowerCase (API_KEY example_consts) \<noteq> toLowerCase (TENANT_ID example_consts) \<and>
   toLowerCase (API_KEY example_consts) \<noteq> toLowerCase (str ''Content-Type'') \<and>
   toLowerCase (API_KEY example_consts) \<noteq> toLowerCase (CORRELATION_ID example_consts) \<and>
   INTERNAL_API_KEY example_env = Some (str ''secret'') \<and>
   Headers_get
     [(str ''x-budibase-api-key'', [str ''secret'']), (str ''x-budibase-tenant-id'', [str ''tenant1'']),
      (str ''x-budibase-correlation-id'', [str ''c0ffee''])] (API_KEY example_consts) = Some (str ''secret'')"
proof -
  have ev: "request example_consts example_stringify example_env
     \<lparr>http_method = Some (str ''GET''), headers = HUndefined, body = None, ctx = None\<rparr> =
   Inr \<lparr>http_method = Some (str ''GET''),
        headers = HHeaders
          [(str ''x-budibase-api-key'', [str ''secret'']), (str ''x-budibase-tenant-id'', [str ''tenant1'']),
           (str ''x-budibase-correlation-id'', [str ''c0ffee''])],
        body = None, ctx = None\<rparr>"
    by code_simp
  have c: "ctx \<lparr>http_method = Some (str ''GET''), headers = HUndefined, body = None, ctx = None\<rparr> = None"
    by simp
  have k: "INTERNAL_API_KEY example_env = Some (str ''secret'')"
    by (simp add: example_env_def)
  show ?thesis
    using request_api_key_without_ctx
      [OF ev c example_names_differ(6) example_names_differ(4) example_names_differ(5)]
      ev c k example_names_differ(6) example_names_differ(4) example_names_differ(5)
    by simp
qed

subsection \<open>Copying the allow-listed headers of the context\<close>

lemma append_all_lookup:
  "append_all h header vs = Inr h' \<Longrightarrow>
     lookup h' m =
       (if toLowerCase m = toLowerCase header \<and> vs \<noteq> []
        then Some (values_of h m @ vs) else lookup h m)"
proof (induction vs arbitrary: h)
  case Nil
  then show ?case by simp
next
  case (Cons v vs)
  from Cons.prems obtain h1 where
    h1: "h1 = push h header v" and rest: "append_all h1 header vs = Inr h'"
    by (auto simp: bnd_eq_Inr Headers_append_Inr)
  show ?case
    using Cons.IH [OF rest] h1 by (simp add: lookup_push values_of_push)
qed

lemma append_all_values:
  "append_all h header vs = Inr h' \<Longrightarrow>
     values_of h' m =
       (if toLowerCase m = toLowerCase header then values_of h m @ vs else values_of h m)"
proof (induction vs arbitrary: h)
  case Nil
  then show ?case by simp
next
  case (Cons v vs)
  from Cons.prems obtain h1 where
    h1: "h1 = push h header v" and rest: "append_all h1 header vs = Inr h'"
    by (auto simp: bnd_eq_Inr Headers_append_Inr)
  show ?case
    using Cons.IH [OF rest] h1 by (simp add: values_of_push)
qed

text \<open>One turn of the loop of lines 52-65, for the header name \<open>x\<close>.\<close>

lemma copy_headers_Cons:
  "copy_headers ih (x # rest) h = Inr h' \<longleftrightarrow>
     (\<exists>h1. (case map_of ih x of
              None \<Rightarrow> Inr h
            | Some (Multi vs) \<Rightarrow> append_all h x vs
            | Some (Single v) \<Rightarrow> Headers_set h x v) = Inr h1 \<and>
           copy_headers ih rest h1 = Inr h')"
  by (auto simp: bnd_eq_Inr split: option.splits header_value.splits)

lemma copy_step_other:
  assumes "(case map_of ih x of
              None \<Rightarrow> Inr h
            | Some (Multi vs) \<Rightarrow> append_all h x vs
            | Some (Single v) \<Rightarrow> Headers_set h x v) = Inr h1"
    and "toLowerCase n \<noteq> toLowerCase x"
  shows "lookup h1 n = lookup h n"
proof (cases "map_of ih x")
  case None
  then show ?thesis using assms by simp
next
  case (Some hv)
  show ?thesis
  proof (cases hv)
    case (Single v)
    then show ?thesis using assms Some by (simp add: Headers_set_Inr lookup_put)
  next
    case (Multi vs)
    then have "append_all h x vs = Inr h1" using assms(1) Some by simp
    from append_all_lookup [OF this, of n] show ?thesis using assms(2) by simp
  qed
qed

lemma copy_headers_outside:
  "copy_headers ih hs h = Inr h' \<Longrightarrow> toLowerCase n \<notin> toLowerCase ` set hs \<Longrightarrow>
     lookup h' n = lookup h n"
proof (induction hs arbitrary: h)
  case Nil
  then show ?case by simp
next
  case (Cons x rest)
  from Cons.prems(1) obtain h1 where
    st: "(case map_of ih x of
              None \<Rightarrow> Inr h
            | Some (Multi vs) \<Rightarrow> append_all h x vs
            | Some (Single v) \<Rightarrow> Headers_set h x v) = Inr h1"
    and rest: "copy_headers ih rest h1 = Inr h'"
    unfolding copy_headers_Cons by blast
  have "lookup h' n = lookup h1 n"
    using Cons.IH [OF rest] Cons.prems(2) by simp
  moreover have "lookup h1 n = lookup h n"
    using copy_step_other [OF st] Cons.prems(2) by simp
  ultimately show ?case by simp
qed

lemma copy_headers_inside:
  "distinct (map toLowerCase hs) \<Longrightarrow> header \<in> set hs \<Longrightarrow> copy_headers ih hs h = Inr h' \<Longrightarrow>
     (case map_of ih header of
        None \<Rightarrow> lookup h' header = lookup h header
      | Some (Single v) \<Rightarrow> lookup h' header = Some [v]
      | Some (Multi vs) \<Rightarrow> values_of h' header = values_of h header @ vs)"
proof (induction hs arbitrary: h)
  case Nil
  then show ?case by simp
next
  case (Cons x rest)
  from Cons.prems(3) obtain h1 where
    st: "(case map_of ih x of
              None \<Rightarrow> Inr h
            | Some (Multi vs) \<Rightarrow> append_all h x vs
            | Some (Single v) \<Rightarrow> Headers_set h x v) = Inr h1"
    and rest: "copy_headers ih rest h1 = Inr h'"
    unfolding copy_headers_Cons by blast
  show ?case
  proof (cases "header = x")
    case True
    have "toLowerCase header \<notin> toLowerCase ` set rest"
      using Cons.prems(1) True by auto
    then have keep: "lookup h' header = lookup h1 header"
      using copy_headers_outside [OF rest] by simp
    then have keepv: "values_of h' header = values_of h1 header"
      by (simp add: values_of_def)
    show ?thesis
    proof (cases "map_of ih x")
      case None
      then show ?thesis using st keep True by simp
    next
      case (Some hv)
      show ?thesis
      proof (cases hv)
        case (Single v)
        then show ?thesis
          using st keep True Some by (simp add: Headers_set_Inr lookup_put)
      next
        case (Multi vs)
        then have "append_all h x vs = Inr h1" using st Some by simp
        from append_all_values [OF this, of x] show ?thesis
          using keepv True Some Multi by simp
      qed
    qed
  next
    case False
    then have mem: "header \<in> set rest" using Cons.prems(2) by simp
    then have "toLowerCase header \<in> toLowerCase ` set rest"
      by (rule imageI)
    moreover have "toLowerCase x \<notin> toLowerCase ` set rest"
      using Cons.prems(1) by simp
    ultimately have "toLowerCase header \<noteq> toLowerCase x"
      by metis
    then have same: "lookup h1 header = lookup h header"
      using copy_step_other [OF st] by simp
    have "distinct (map toLowerCase rest)" using Cons.prems(1) by simp
    from Cons.IH [OF this mem rest] same show ?thesis
      by (simp add: values_of_def split: option.splits header_value.splits)
  qed
qed

text \<open>
  C4. For a call with a request context that carries inbound headers, let \<open>h0\<close> be the
  caller's headers as normalized and \<open>h1\<close> the container after the loop over the
  allow-list. A name outside the allow-list has in \<open>h1\<close> what it had in \<open>h0\<close>: nothing
  is copied for it. For a name of the allow-list: absent from the inbound headers it
  is left as it was; with one inbound value it holds exactly that value; with a list
  of inbound values each of them has been appended, in order, after the values it
  had. The returned headers are \<open>h1\<close> except under the three names written
  afterwards (tenant ID, \<open>Content-Type\<close>, correlation ID). (The names of the
  allow-list are taken to be pairwise different, also without regard to case.)
\<close>

theorem request_copies_allow_list:
  assumes "request K S E req = Inr d"
    and "ctx req = Some c"
    and "ctx_headers c = Some ih"
    and "distinct (map toLowerCase (Header_values K))"
  shows "\<exists>h0 h1 h.
           ensureHeadersIsObject (headers req) = Inr h0 \<and>
           copy_headers ih (Header_values K) h0 = Inr h1 \<and>
           headers d = HHeaders h \<and>
           (\<forall>n. toLowerCase n \<notin> toLowerCase ` set (Header_values K) \<longrightarrow>
                lookup h1 n = lookup h0 n) \<and>
           (\<forall>header \<in> set (Header_values K).
              case map_of ih header of
                None \<Rightarrow> lookup h1 header = lookup h0 header
              | Some (Single v) \<Rightarrow> lookup h1 header = Some [v]
              | Some (Multi vs) \<Rightarrow> values_of h1 header = values_of h0 header @ vs) \<and>
           (\<forall>n. toLowerCase n \<noteq> toLowerCase (TENANT_ID K) \<and>
                toLowerCase n \<noteq> toLowerCase (str ''Content-Type'') \<and>
                toLowerCase n \<noteq> toLowerCase (CORRELATION_ID K) \<longrightarrow>
                lookup h n = lookup h1 n)"
proof -
  from assms(1) obtain h0 h1 h2 h3 b h4 where
    en: "ensureHeadersIsObject (headers req) = Inr h0" and
    au: "auth_headers K E (ctx req) h0 = Inr h1" and
    te: "apply_tenancy K E h1 = Inr h2" and
    bd: "apply_body S (body req) h2 = Inr (h3, b)" and
    co: "setHeader K E h3 = h4" and
    d: "d = req\<lparr>headers := HHeaders h4, body := b, ctx := None\<rparr>"
    unfolding request_Inr by blast
  have cp: "copy_headers ih (Header_values K) h0 = Inr h1"
    using au assms(2,3) by (simp add: auth_headers_ctx)
  have out: "\<forall>n. toLowerCase n \<notin> toLowerCase ` set (Header_values K) \<longrightarrow>
                lookup h1 n = lookup h0 n"
    using copy_headers_outside [OF cp] by blast
  have ins: "\<forall>header \<in> set (Header_values K).
              case map_of ih header of
                None \<Rightarrow> lookup h1 header = lookup h0 header
              | Some (Single v) \<Rightarrow> lookup h1 header = Some [v]
              | Some (Multi vs) \<Rightarrow> values_of h1 header = values_of h0 header @ vs"
    using copy_headers_inside [OF assms(4) _ cp] by blast
  have fin: "\<forall>n. toLowerCase n \<noteq> toLowerCase (TENANT_ID K) \<and>
                toLowerCase n \<noteq> toLowerCase (str ''Content-Type'') \<and>
                toLowerCase n \<noteq> toLowerCase (CORRELATION_ID K) \<longrightarrow>
                lookup h4 n = lookup h1 n"
  proof (intro allI impI)
    fix n
    assume n: "toLowerCase n \<noteq> toLowerCase (TENANT_ID K) \<and>
                toLowerCase n \<noteq> toLowerCase (str ''Content-Type'') \<and>
                toLowerCase n \<noteq> toLowerCase (CORRELATION_ID K)"
    have "lookup h4 n = lookup h3 n"
      using setHeader_lookup [OF co, of n] n by (simp split: option.splits)
    also have "\<dots> = lookup h2 n"
      using apply_body_lookup [OF bd, of n] n by simp
    also have "\<dots> = lookup h1 n"
      using apply_tenancy_lookup [OF te, of n] n by (simp split: option.splits)
    finally show "lookup h4 n = lookup h1 n" .
  qed
  have hd: "headers d = HHeaders h4" using d by simp
  have "ensureHeadersIsObject (headers req) = Inr h0 \<and>
        copy_headers ih (Header_values K) h0 = Inr h1 \<and>
        headers d = HHeaders h4 \<and>
        (\<forall>n. toLowerCase n \<notin> toLowerCase ` set (Header_values K) \<longrightarrow>
             lookup h1 n = lookup h0 n) \<and>
        (\<forall>header \<in> set (Header_values K).
           case map_of ih header of
             None \<Rightarrow> lookup h1 header = lookup h0 header
           | Some (Single v) \<Rightarrow> lookup h1 header = Some [v]
           | Some (Multi vs) \<Rightarrow> values_of h1 header = values_of h0 header @ vs) \<and>
        (\<forall>n. toLowerCase n \<noteq> toLowerCase (TENANT_ID K) \<and>
             toLowerCase n \<noteq> toLowerCase (str ''Content-Type'') \<and>
             toLowerCase n \<noteq> toLowerCase (CORRELATION_ID K) \<longrightarrow>
             lookup h4 n = lookup h1 n)"
    using en cp hd out ins fin by (intro conjI)
  then show ?thesis by (intro exI)
qed

theorem request_copies_allow_list_witness:
  "request example_consts example_stringify
     \<lparr>INTERNAL_API_KEY = Some (str ''secret''), tenantId = None, correlationId = str ''c0ffee''\<rparr>
     \<lparr>http_method = Some (str ''GET''),
      headers = HObject [(str ''x-budibase-app-id'', str ''app_0'')],
      body = None,
      ctx = Some \<lparr>ctx_headers = Some
        [(str ''accept'', Single (str ''text/html'')),
         (str ''authorization'', Single (str ''Bearer t'')),
         (str ''x-budibase-app-id'', Multi [str ''app_1'', str ''app_2''])]\<rparr>\<rparr> =
   Inr \<lparr>http_method = Some (str ''GET''),
        headers = HHeaders
          [(str ''x-budibase-app-id'', [str ''app_0'', str ''app_1'', str ''app_2'']),
           (str ''authorization'', [str ''Bearer t'']),
           (str ''x-budibase-correlation-id'', [str ''c0ffee''])],
        body = None, ctx = None\<rparr> \<and>
   distinct (map toLowerCase (Header_values example_consts)) \<and>
   lookup [(str ''x-budibase-app-id'', [str ''app_0'', str ''app_1'', str ''app_2'']),
           (str ''authorization'', [str ''Bearer t'']),
           (str ''x-budibase-correlation-id'', [str ''c0ffee''])] (str ''accept'') = None"
proof -
  have ev: "request example_consts example_stringify
     \<lparr>INTERNAL_API_KEY = Some (str ''secret''), tenantId = None, correlationId = str ''c0ffee''\<rparr>
     \<lparr>http_method = Some (str ''GET''),
      headers = HObject [(str ''x-budibase-app-id'', str ''app_0'')],
      body = None,
      ctx = Some \<lparr>ctx_headers = Some
        [(str ''accept'', Single (str ''text/html'')),
         (str ''authorization'', Single (str ''Bearer t'')),
         (str ''x-budibase-app-id'', Multi [str ''app_1'', str ''app_2''])]\<rparr>\<rparr> =
   Inr \<lparr>http_method = Some (str ''GET''),
        headers = HHeaders
          [(str ''x-budibase-app-id'', [str ''app_0'', str ''app_1'', str ''app_2'']),
           (str ''authorization'', [str ''Bearer t'']),
           (str ''x-budibase-correlation-id'', [str ''c0ffee''])],
        body = None, ctx = None\<rparr>"
    by code_simp
  have dn: "distinct (map toLowerCase (Header_values example_consts))"
    by code_simp
  have la: "lookup [(str ''x-budibase-app-id'', [str ''app_0'', str ''app_1'', str ''app_2'']),
           (str ''authorization'', [str ''Bearer t'']),
           (str ''x-budibase-correlation-id'', [str ''c0ffee''])] (str ''accept'') = None"
    by code_simp
  show ?thesis
    using request_copies_allow_list [OF ev _ _ dn, of
        "\<lparr>ctx_headers = Some
        [(str ''accept'', Single (str ''text/html'')),
         (str ''authorization'', Single (str ''Bearer t'')),
         (str ''x-budibase-app-id'', Multi [str ''app_1'', str ''app_2''])]\<rparr>"
        "[(str ''accept'', Single (str ''text/html'')),
         (str ''authorization'', Single (str ''Bearer t'')),
         (str ''x-budibase-app-id'', Multi [str ''app_1'', str ''app_2''])]"]
      ev dn la
    by simp
qed

subsection \<open>When request returns\<close>

lemma append_pairs_Inr_iff:
  "(\<exists>h'. append_pairs h ps = Inr h') \<longleftrightarrow> list_all legal_pair ps"
proof (induction ps arbitrary: h)
  case Nil
  then show ?case by simp
next
  case (Cons p ps)
  obtain k v where p: "p = (k, v)" by (cases p)
  show ?case
    using Cons.IH [of "push h k v"]
    by (auto simp: p bnd_eq_Inr Headers_append_Inr legal_pair_def)
qed

lemma ensureHeadersIsObject_Inr_iff:
  "(\<exists>h. ensureHeadersIsObject hi = Inr h) \<longleftrightarrow> legal_init hi"
  by (cases hi) (simp_all add: append_pairs_Inr_iff)

lemma append_all_Inr_iff:
  "(\<exists>h'. append_all h header vs = Inr h') \<longleftrightarrow>
     vs = [] \<or> legal_name header \<and> list_all legal_value vs"
proof (induction vs arbitrary: h)
  case Nil
  then show ?case by simp
next
  case (Cons v vs)
  show ?case
    using Cons.IH [of "push h header v"]
    by (auto simp: bnd_eq_Inr Headers_append_Inr)
qed

lemma copy_step_Inr_iff:
  "(\<exists>h1. (case hv of
            None \<Rightarrow> Inr h
          | Some (Multi vs) \<Rightarrow> append_all h x vs
          | Some (Single v) \<Rightarrow> Headers_set h x v) = Inr h1) \<longleftrightarrow> legal_copy x hv"
proof (cases hv)
  case None
  then show ?thesis by simp
next
  case (Some w)
  then show ?thesis
    by (cases w) (simp_all add: Headers_set_Inr append_all_Inr_iff)
qed

lemma copy_headers_Inr_iff:
  "(\<exists>h'. copy_headers ih hs h = Inr h') \<longleftrightarrow>
     list_all (\<lambda>header. legal_copy header (map_of ih header)) hs"
proof (induction hs arbitrary: h)
  case Nil
  then show ?case by simp
next
  case (Cons x rest)
  have "(\<exists>h'. copy_headers ih (x # rest) h = Inr h') \<longleftrightarrow>
        (\<exists>h1. (case map_of ih x of
              None \<Rightarrow> Inr h
            | Some (Multi vs) \<Rightarrow> append_all h x vs
            | Some (Single v) \<Rightarrow> Headers_set h x v) = Inr h1 \<and>
           (\<exists>h'. copy_headers ih rest h1 = Inr h'))"
    unfolding copy_headers_Cons by blast
  also have "\<dots> \<longleftrightarrow>
        (\<exists>h1. (case map_of ih x of
              None \<Rightarrow> Inr h
            | Some (Multi vs) \<Rightarrow> append_all h x vs
            | Some (Single v) \<Rightarrow> Headers_set h x v) = Inr h1) \<and>
        list_all (\<lambda>header. legal_copy header (map_of ih header)) rest"
    using Cons.IH by blast
  also have "\<dots> \<longleftrightarrow> legal_copy x (map_of ih x) \<and>
        list_all (\<lambda>header. legal_copy header (map_of ih header)) rest"
    unfolding copy_step_Inr_iff ..
  finally show ?case by simp
qed

lemma auth_headers_Inr_iff:
  "(\<exists>h'. auth_headers K E c h = Inr h') \<longleftrightarrow> legal_auth K E c"
proof (cases c)
  case None
  then show ?thesis
    by (auto simp: auth_headers_no_ctx legal_auth_def Headers_set_Inr split: option.splits)
next
  case (Some cx)
  then show ?thesis
    using copy_headers_Inr_iff [of _ "Header_values K" h]
    by (simp add: auth_headers_ctx legal_auth_def legal_inbound_def split: option.splits)
qed

lemma apply_tenancy_Inr_iff:
  "(\<exists>h'. apply_tenancy K E h = Inr h') \<longleftrightarrow> legal_tenant K E"
  by (auto simp: apply_tenancy_def isTenantIdSet_def getTenantId_def Headers_set_Inr
      legal_tenant_def split: option.splits)

lemma legal_content_type:
  "legal_name (str ''Content-Type'')" "legal_value (str ''application/json'')"
  by (simp_all add: legal_name_def legal_value_def str_def)

lemma Headers_set_content_type:
  "Headers_set h (str ''Content-Type'') (str ''application/json'') =
     Inr (put h (str ''Content-Type'') (str ''application/json''))"
  using legal_content_type by (simp add: Headers_set_Inr)

lemma apply_body_total: "\<exists>h' b'. apply_body S b h = Inr (h', b')"
proof -
  obtain c where c: "has_content b = Inr c" using has_content_total by blast
  show ?thesis
    by (cases c) (simp_all add: apply_body_def c Headers_set_content_type)
qed

text \<open>Whatever \<open>request\<close> throws is the \<open>TypeError\<close> of the header container.\<close>

lemma bnd_eq_Inl: "bnd x f = Inl e \<longleftrightarrow> x = Inl e \<or> (\<exists>a. x = Inr a \<and> f a = Inl e)"
  by (cases x) simp_all

lemma Headers_set_Inl: "Headers_set h name v = Inl e \<Longrightarrow> container_error e"
  by (auto simp: Headers_set_def validateName_def validateValue_def container_error_def
      split: if_splits)

lemma Headers_append_Inl: "Headers_append h name v = Inl e \<Longrightarrow> container_error e"
  by (auto simp: Headers_append_def validateName_def validateValue_def container_error_def
      split: if_splits)

lemma append_pairs_Inl: "append_pairs h ps = Inl e \<Longrightarrow> container_error e"
proof (induction ps arbitrary: h)
  case Nil
  then show ?case by simp
next
  case (Cons p ps)
  obtain k v where p: "p = (k, v)" by (cases p)
  from Cons.prems consider "Headers_append h k v = Inl e"
    | h1 where "append_pairs h1 ps = Inl e"
    by (auto simp: p bnd_eq_Inl)
  then show ?case
    using Headers_append_Inl Cons.IH by cases blast+
qed

lemma ensureHeadersIsObject_Inl: "ensureHeadersIsObject hi = Inl e \<Longrightarrow> container_error e"
  by (cases hi) (auto dest: append_pairs_Inl)

lemma append_all_Inl: "append_all h header vs = Inl e \<Longrightarrow> container_error e"
proof (induction vs arbitrary: h)
  case Nil
  then show ?case by simp
next
  case (Cons v vs)
  from Cons.prems consider "Headers_append h header v = Inl e"
    | h1 where "append_all h1 header vs = Inl e"
    by (auto simp: bnd_eq_Inl)
  then show ?case
    using Headers_append_Inl Cons.IH by cases blast+
qed

lemma copy_headers_Inl: "copy_headers ih hs h = Inl e \<Longrightarrow> container_error e"
proof (induction hs arbitrary: h)
  case Nil
  then show ?case by simp
next
  case (Cons x rest)
  show ?case
  proof (cases "map_of ih x")
    case None
    then show ?thesis using Cons by simp
  next
    case (Some hv)
    show ?thesis
    proof (cases hv)
      case (Single v)
      then have "Headers_set h x v = Inl e \<or> (\<exists>h1. copy_headers ih rest h1 = Inl e)"
        using Cons.prems Some by (auto simp: bnd_eq_Inl)
      then show ?thesis using Headers_set_Inl Cons.IH by blast
    next
      case (Multi vs)
      then have "append_all h x vs = Inl e \<or> (\<exists>h1. copy_headers ih rest h1 = Inl e)"
        using Cons.prems Some by (auto simp: bnd_eq_Inl)
      then show ?thesis using append_all_Inl Cons.IH by blast
    qed
  qed
qed

lemma auth_headers_Inl: "auth_headers K E c h = Inl e \<Longrightarrow> container_error e"
proof (cases c)
  case None
  assume "auth_headers K E c h = Inl e"
  then show ?thesis
    using None Headers_set_Inl [of h "API_KEY K" _ e]
    by (auto simp: auth_headers_no_ctx split: option.splits if_splits)
next
  case (Some cx)
  assume "auth_headers K E c h = Inl e"
  then show ?thesis
    using Some copy_headers_Inl [of _ "Header_values K" h e]
    by (auto simp: auth_headers_ctx split: option.splits)
qed

lemma apply_tenancy_Inl: "apply_tenancy K E h = Inl e \<Longrightarrow> container_error e"
  using Headers_set_Inl [of h "TENANT_ID K" _ e]
  by (auto simp: apply_tenancy_def isTenantIdSet_def getTenantId_def
      split: option.splits if_splits)

lemma apply_body_not_Inl: "apply_body S b h \<noteq> Inl e"
  using apply_body_total [of S b h] by auto

lemma request_Inl: "request K S E req = Inl e \<Longrightarrow> container_error e"
  unfolding request_def
  by (auto simp: bnd_eq_Inl apply_body_not_Inl
      dest: ensureHeadersIsObject_Inl auth_headers_Inl apply_tenancy_Inl)

text \<open>
  C8, as stated, fails: a header name that is not an HTTP token makes the header
  container throw, and \<open>request\<close> does not catch it.
\<close>

theorem request_throws_counterexample:
  "request example_consts example_stringify example_env
     \<lparr>http_method = Some (str ''GET''), headers = HPairs [[str ''bad name'', str ''x'']],
      body = None, ctx = None\<rparr> =
   Inl (TypeError (str ''bad name is not a legal HTTP header name''))"
  by code_simp

text \<open>
  C8, amended. For headers of any of the supported shapes and any body, \<open>request\<close>
  returns a descriptor exactly when every header name and value that it hands to
  \<open>set\<close> or \<open>append\<close> of the header container is legal: the caller's pairs or
  mapping entries, the API-key header and key (no context), the allow-listed inbound
  headers (with a context), the tenant-ID header and identifier. Otherwise it throws,
  and what it throws is the \<open>TypeError\<close> of the container for an illegal header name
  or value. The body (a string or a finite JSON value) never makes it fail.
\<close>

theorem request_returns_iff:
  "((\<exists>d. request K S E req = Inr d) \<longleftrightarrow>
      legal_init (headers req) \<and> legal_auth K E (ctx req) \<and> legal_tenant K E) \<and>
   (\<forall>e. request K S E req = Inl e \<longrightarrow> container_error e)"
proof -
  have returns: "(\<exists>d. request K S E req = Inr d) \<longleftrightarrow>
      legal_init (headers req) \<and> legal_auth K E (ctx req) \<and> legal_tenant K E"
  proof
    assume "\<exists>d. request K S E req = Inr d"
    then obtain h0 h1 h2 h3 b where
      "ensureHeadersIsObject (headers req) = Inr h0"
      "auth_headers K E (ctx req) h0 = Inr h1"
      "apply_tenancy K E h1 = Inr h2"
      "apply_body S (body req) h2 = Inr (h3, b)"
      unfolding request_Inr by blast
    then show "legal_init (headers req) \<and> legal_auth K E (ctx req) \<and> legal_tenant K E"
      using ensureHeadersIsObject_Inr_iff [of "headers req"]
        auth_headers_Inr_iff [of K E "ctx req" h0]
        apply_tenancy_Inr_iff [of K E h1]
      by blast
  next
    assume legal: "legal_init (headers req) \<and> legal_auth K E (ctx req) \<and> legal_tenant K E"
    then obtain h0 where h0: "ensureHeadersIsObject (headers req) = Inr h0"
      using ensureHeadersIsObject_Inr_iff [of "headers req"] by blast
    obtain h1 where h1: "auth_headers K E (ctx req) h0 = Inr h1"
      using legal auth_headers_Inr_iff [of K E "ctx req" h0] by blast
    obtain h2 where h2: "apply_tenancy K E h1 = Inr h2"
      using legal apply_tenancy_Inr_iff [of K E h1] by blast
    obtain h3 b where h3: "apply_body S (body req) h2 = Inr (h3, b)"
      using apply_body_total by blast
    show "\<exists>d. request K S E req = Inr d"
      unfolding request_Inr using h0 h1 h2 h3 by blast
  qed
  have throws: "\<forall>e. request K S E req = Inl e \<longrightarrow> container_error e"
    using request_Inl by blast
  from returns throws show ?thesis by (rule conjI)
qed

theorem request_returns_iff_witness:
  "legal_init (HObject [(str ''accept'', str ''application/json'')]) \<and>
   legal_auth example_consts example_env None \<and>
   legal_tenant example_consts example_env \<and>
   (\<exists>d. request example_consts example_stringify example_env
      \<lparr>http_method = Some (str ''GET''),
       headers = HObject [(str ''accept'', str ''application/json'')],
       body = Some (JNum 5), ctx = None\<rparr> = Inr d) \<and>
   \<not> legal_init (HObject [(str ''x-note'', [Wide 8108])]) \<and>
   request example_consts example_stringify example_env
      \<lparr>http_method = Some (str ''GET''),
       headers = HObject [(str ''x-note'', [Wide 8108])],
       body = None, ctx = None\<rparr> =
     Inl (TypeError ([Wide 8108] @ str '' is not a legal HTTP header value'')) \<and>
   container_error (TypeError ([Wide 8108] @ str '' is not a legal HTTP header value''))"
proof -
  have l1: "legal_init (HObject [(str ''accept'', str ''application/json'')])"
    by code_simp
  have l2: "legal_auth example_consts example_env None"
    by code_simp
  have l3: "legal_tenant example_consts example_env"
    by code_simp
  have l4: "\<not> legal_init (HObject [(str ''x-note'', [Wide 8108])])"
    by code_simp
  have ev: "request example_consts example_stringify example_env
      \<lparr>http_method = Some (str ''GET''),
       headers = HObject [(str ''x-note'', [Wide 8108])],
       body = None, ctx = None\<rparr> =
     Inl (TypeError ([Wide 8108] @ str '' is not a legal HTTP header value''))"
    by code_simp
  show ?thesis
    using l1 l2 l3 l4 ev
      request_returns_iff [where K = example_consts and S = example_stringify
        and E = example_env
        and req = "\<lparr>http_method = Some (str ''GET''),
                     headers = HObject [(str ''accept'', str ''application/json'')],
                     body = Some (JNum 5), ctx = None\<rparr>"]
      request_returns_iff [where K = example_consts and S = example_stringify
        and E = example_env
        and req = "\<lparr>http_method = Some (str ''GET''),
                     headers = HObject [(str ''x-note'', [Wide 8108])],
                     body = None, ctx = None\<rparr>"]
    by simp
qed

subsection \<open>The shapes of the caller's headers\<close>

lemma names_of_Nil: "names_of [] = {}"
  by (simp add: names_of_def)

lemma names_of_Cons: "names_of ((k, vs) # h) = insert (toLowerCase k) (names_of h)"
  by (simp add: names_of_def)

lemma names_of_put: "names_of (put h name v) = insert (toLowerCase name) (names_of h)"
proof (induction h)
  case Nil
  then show ?case by (simp add: names_of_Nil names_of_Cons)
next
  case (Cons e h)
  obtain k vs where e: "e = (k, vs)" by (cases e)
  show ?case
  proof (cases "toLowerCase k = toLowerCase name")
    case True
    then show ?thesis by (simp add: e names_of_Cons)
  next
    case False
    then show ?thesis by (simp add: e names_of_Cons Cons.IH insert_commute)
  qed
qed

lemma names_of_push: "names_of (push h name v) = insert (toLowerCase name) (names_of h)"
proof (induction h)
  case Nil
  then show ?case by (simp add: names_of_Nil names_of_Cons)
next
  case (Cons e h)
  obtain k vs where e: "e = (k, vs)" by (cases e)
  show ?case
  proof (cases "toLowerCase k = toLowerCase name")
    case True
    then show ?thesis by (simp add: e names_of_Cons)
  next
    case False
    then show ?thesis by (simp add: e names_of_Cons Cons.IH insert_commute)
  qed
qed

lemma append_pairs_Cons:
  "append_pairs h ((k, v) # ps) = Inr h' \<longleftrightarrow>
     legal_name k \<and> legal_value v \<and> append_pairs (push h k v) ps = Inr h'"
  by (auto simp: bnd_eq_Inr Headers_append_Inr)

lemma append_pairs_values:
  "append_pairs h ps = Inr h' \<Longrightarrow>
     values_of h' n =
       values_of h n @ map snd (filter (\<lambda>p. toLowerCase n = toLowerCase (fst p)) ps)"
proof (induction ps arbitrary: h)
  case Nil
  then show ?case by simp
next
  case (Cons p ps)
  obtain k v where p: "p = (k, v)" by (cases p)
  from Cons.prems have rest: "append_pairs (push h k v) ps = Inr h'"
    unfolding p append_pairs_Cons by simp
  show ?case
    using Cons.IH [OF rest] by (simp add: p values_of_push)
qed

lemma append_pairs_names:
  "append_pairs h ps = Inr h' \<Longrightarrow>
     names_of h' = names_of h \<union> (\<lambda>p. toLowerCase (fst p)) ` set ps"
proof (induction ps arbitrary: h)
  case Nil
  then show ?case by simp
next
  case (Cons p ps)
  obtain k v where p: "p = (k, v)" by (cases p)
  from Cons.prems have rest: "append_pairs (push h k v) ps = Inr h'"
    unfolding p append_pairs_Cons by simp
  show ?case
    using Cons.IH [OF rest] by (simp add: p names_of_push)
qed

lemma append_pairs_permuted:
  assumes "append_pairs [] ps = Inr h" and "mset qs = mset ps"
  shows "\<exists>h'. append_pairs [] qs = Inr h' \<and> equivalent_headers h' h"
proof -
  have sets: "set qs = set ps"
    using assms(2) by (rule mset_eq_setD)
  have "list_all legal_pair ps"
    using assms(1) append_pairs_Inr_iff [of "[]" ps] by blast
  then have "list_all legal_pair qs"
    using sets by (simp add: list_all_iff)
  then obtain h' where h': "append_pairs [] qs = Inr h'"
    using append_pairs_Inr_iff [of "[]" qs] by blast
  have names: "names_of h' = names_of h"
    using append_pairs_names [OF h'] append_pairs_names [OF assms(1)] sets by simp
  have vals: "mset (values_of h' n) = mset (values_of h n)" for n
  proof -
    have "mset (map snd (filter (\<lambda>p. toLowerCase n = toLowerCase (fst p)) qs)) =
          image_mset snd (filter_mset (\<lambda>p. toLowerCase n = toLowerCase (fst p)) (mset qs))"
      by simp
    also have "\<dots> =
          image_mset snd (filter_mset (\<lambda>p. toLowerCase n = toLowerCase (fst p)) (mset ps))"
      by (simp only: assms(2))
    also have "\<dots> = mset (map snd (filter (\<lambda>p. toLowerCase n = toLowerCase (fst p)) ps))"
      by simp
    finally show ?thesis
      by (simp add: append_pairs_values [OF h'] append_pairs_values [OF assms(1)])
  qed
  show ?thesis
    using h' names vals by (auto simp: equivalent_headers_def)
qed

lemma destructure_pair: "map destructure (map (\<lambda>(k, v). [k, v]) ps) = ps"
  by (induction ps) auto

subsection \<open>Equivalent headers through the steps of request\<close>

lemma equivalent_put:
  "equivalent_headers h h' \<Longrightarrow> equivalent_headers (put h name v) (put h' name v)"
  by (simp add: equivalent_headers_def names_of_put values_of_put)

lemma equivalent_push:
  "equivalent_headers h h' \<Longrightarrow> equivalent_headers (push h name v) (push h' name v)"
  by (simp add: equivalent_headers_def names_of_push values_of_push)

lemma Headers_set_equivalent:
  assumes "Headers_set h name v = Inr g" and "equivalent_headers h h'"
  shows "\<exists>g'. Headers_set h' name v = Inr g' \<and> equivalent_headers g g'"
  using assms by (auto simp: Headers_set_Inr equivalent_put)

lemma append_all_equivalent:
  "append_all h header vs = Inr g \<Longrightarrow> equivalent_headers h h' \<Longrightarrow>
     \<exists>g'. append_all h' header vs = Inr g' \<and> equivalent_headers g g'"
proof (induction vs arbitrary: h h')
  case Nil
  then show ?case by simp
next
  case (Cons v vs)
  from Cons.prems(1) have legal: "legal_name header" "legal_value v"
    and rest: "append_all (push h header v) header vs = Inr g"
    by (auto simp: bnd_eq_Inr Headers_append_Inr)
  from Cons.IH [OF rest equivalent_push [OF Cons.prems(2)]] obtain g' where
    "append_all (push h' header v) header vs = Inr g'" "equivalent_headers g g'"
    by blast
  then show ?case
    using legal by (auto simp: bnd_eq_Inr Headers_append_Inr)
qed

lemma copy_step_equivalent:
  assumes "(case hv of
              None \<Rightarrow> Inr h
            | Some (Multi vs) \<Rightarrow> append_all h x vs
            | Some (Single v) \<Rightarrow> Headers_set h x v) = Inr g"
    and "equivalent_headers h h'"
  shows "\<exists>g'. (case hv of
              None \<Rightarrow> Inr h'
            | Some (Multi vs) \<Rightarrow> append_all h' x vs
            | Some (Single v) \<Rightarrow> Headers_set h' x v) = Inr g' \<and> equivalent_headers g g'"
proof (cases hv)
  case None
  then show ?thesis using assms by simp
next
  case (Some w)
  then show ?thesis
    using assms Headers_set_equivalent [of h x _ g h'] append_all_equivalent [of h x _ g h']
    by (cases w) simp_all
qed

lemma copy_headers_equivalent:
  "copy_headers ih hs h = Inr g \<Longrightarrow> equivalent_headers h h' \<Longrightarrow>
     \<exists>g'. copy_headers ih hs h' = Inr g' \<and> equivalent_headers g g'"
proof (induction hs arbitrary: h h')
  case Nil
  then show ?case by simp
next
  case (Cons x rest)
  from Cons.prems(1) obtain h1 where
    st: "(case map_of ih x of
              None \<Rightarrow> Inr h
            | Some (Multi vs) \<Rightarrow> append_all h x vs
            | Some (Single v) \<Rightarrow> Headers_set h x v) = Inr h1"
    and rest: "copy_headers ih rest h1 = Inr g"
    unfolding copy_headers_Cons by blast
  from copy_step_equivalent [OF st Cons.prems(2)] obtain h1' where
    st': "(case map_of ih x of
              None \<Rightarrow> Inr h'
            | Some (Multi vs) \<Rightarrow> append_all h' x vs
            | Some (Single v) \<Rightarrow> Headers_set h' x v) = Inr h1'"
    and eq1: "equivalent_headers h1 h1'"
    by blast
  from Cons.IH [OF rest eq1] obtain g' where
    "copy_headers ih rest h1' = Inr g'" "equivalent_headers g g'"
    by blast
  then show ?case
    unfolding copy_headers_Cons using st' by blast
qed

lemma auth_headers_equivalent:
  assumes "auth_headers K E c h = Inr g" and "equivalent_headers h h'"
  shows "\<exists>g'. auth_headers K E c h' = Inr g' \<and> equivalent_headers g g'"
proof (cases c)
  case None
  then show ?thesis
    using assms Headers_set_equivalent [of h "API_KEY K" _ g h']
    by (auto simp: auth_headers_no_ctx split: option.splits if_splits)
next
  case (Some cx)
  then show ?thesis
    using assms copy_headers_equivalent [of _ "Header_values K" h g h']
    by (auto simp: auth_headers_ctx split: option.splits)
qed

lemma apply_tenancy_equivalent:
  assumes "apply_tenancy K E h = Inr g" and "equivalent_headers h h'"
  shows "\<exists>g'. apply_tenancy K E h' = Inr g' \<and> equivalent_headers g g'"
  using assms Headers_set_equivalent [of h "TENANT_ID K" _ g h']
  by (auto simp: apply_tenancy_def isTenantIdSet_def getTenantId_def
      split: option.splits if_splits)

lemma setHeader_equivalent:
  "equivalent_headers h h' \<Longrightarrow> equivalent_headers (setHeader K E h) (setHeader K E h')"
  by (simp add: setHeader_def equivalent_put)

lemma apply_body_equivalent:
  assumes "apply_body S b h = Inr (g, b')" and "equivalent_headers h h'"
  shows "\<exists>g'. apply_body S b h' = Inr (g', b') \<and> equivalent_headers g g'"
proof -
  obtain c where c: "has_content b = Inr c" using has_content_total by blast
  show ?thesis
    using assms c
    by (cases c) (auto simp: apply_body_def Headers_set_content_type equivalent_put)
qed

lemma request_equivalent:
  assumes "request K S E (req\<lparr>headers := hi\<rparr>) = Inr d"
    and "ensureHeadersIsObject hi = Inr h0"
    and "ensureHeadersIsObject hi' = Inr h0'"
    and "equivalent_headers h0 h0'"
  shows "\<exists>d' h h'. request K S E (req\<lparr>headers := hi'\<rparr>) = Inr d' \<and>
           headers d = HHeaders h \<and> headers d' = HHeaders h' \<and>
           equivalent_headers h h' \<and>
           body d' = body d \<and> http_method d' = http_method d \<and> ctx d' = ctx d"
proof -
  from assms(1,2) obtain h1 h2 h3 b h4 where
    au: "auth_headers K E (ctx req) h0 = Inr h1" and
    te: "apply_tenancy K E h1 = Inr h2" and
    bd: "apply_body S (body req) h2 = Inr (h3, b)" and
    co: "setHeader K E h3 = h4" and
    d: "d = req\<lparr>headers := HHeaders h4, body := b, ctx := None\<rparr>"
    unfolding request_Inr by auto
  from auth_headers_equivalent [OF au assms(4)] obtain h1' where
    au': "auth_headers K E (ctx req) h0' = Inr h1'" and e1: "equivalent_headers h1 h1'"
    by blast
  from apply_tenancy_equivalent [OF te e1] obtain h2' where
    te': "apply_tenancy K E h1' = Inr h2'" and e2: "equivalent_headers h2 h2'"
    by blast
  from apply_body_equivalent [OF bd e2] obtain h3' where
    bd': "apply_body S (body req) h2' = Inr (h3', b)" and e3: "equivalent_headers h3 h3'"
    by blast
  obtain h4' where
    co': "setHeader K E h3' = h4'" and e4: "equivalent_headers h4 h4'"
    using setHeader_equivalent [OF e3, of K E] co by blast
  have "request K S E (req\<lparr>headers := hi'\<rparr>) =
        Inr (req\<lparr>headers := HHeaders h4', body := b, ctx := None\<rparr>)"
    unfolding request_Inr using assms(3) au' te' bd' co' by auto
  then show ?thesis
    using d e4 by simp
qed

lemma equivalent_sym: "equivalent_headers h h' \<Longrightarrow> equivalent_headers h' h"
  by (simp add: equivalent_headers_def)

subsection \<open>What the outbound headers hold of the caller's pairs\<close>

lemma append_pairs_carries:
  assumes "append_pairs [] ps = Inr h"
  shows "carries h (mset ps)"
proof -
  have "names_of h = (\<lambda>p. toLowerCase (fst p)) ` set ps"
    using append_pairs_names [OF assms] by (simp add: names_of_Nil)
  moreover have "mset (values_of h n) =
      image_mset snd (filter_mset (\<lambda>p. toLowerCase n = toLowerCase (fst p)) (mset ps))" for n
    using append_pairs_values [OF assms, of n] by (simp add: values_of_def)
  ultimately show ?thesis by (simp add: carries_def)
qed

lemma auth_headers_other:
  assumes "auth_headers K E c h = Inr h'"
    and "toLowerCase n \<noteq> toLowerCase (API_KEY K)"
    and "toLowerCase n \<notin> toLowerCase ` set (Header_values K)"
  shows "lookup h' n = lookup h n"
proof (cases c)
  case None
  then show ?thesis
    using assms(1,2)
    by (auto simp: auth_headers_no_ctx Headers_set_Inr lookup_put split: option.splits if_splits)
next
  case (Some cx)
  then show ?thesis
    using assms(1) copy_headers_outside [of _ "Header_values K" h h' n, OF _ assms(3)]
    by (auto simp: auth_headers_ctx split: option.splits)
qed

lemma request_other:
  assumes "request K S E req = Inr d"
    and "ensureHeadersIsObject (headers req) = Inr h0"
    and "headers d = HHeaders h"
    and "toLowerCase n \<notin> toLowerCase `
           (set (Header_values K) \<union>
            {API_KEY K, TENANT_ID K, CORRELATION_ID K, str ''Content-Type''})"
  shows "values_of h n = values_of h0 n"
proof -
  from assms(1,2) obtain h1 h2 h3 b h4 where
    au: "auth_headers K E (ctx req) h0 = Inr h1" and
    te: "apply_tenancy K E h1 = Inr h2" and
    bd: "apply_body S (body req) h2 = Inr (h3, b)" and
    co: "setHeader K E h3 = h4" and
    d: "d = req\<lparr>headers := HHeaders h4, body := b, ctx := None\<rparr>"
    unfolding request_Inr by auto
  have n: "toLowerCase n \<notin> toLowerCase ` set (Header_values K)"
    "toLowerCase n \<noteq> toLowerCase (API_KEY K)"
    "toLowerCase n \<noteq> toLowerCase (TENANT_ID K)"
    "toLowerCase n \<noteq> toLowerCase (CORRELATION_ID K)"
    "toLowerCase n \<noteq> toLowerCase (str ''Content-Type'')"
    using assms(4) by auto
  have "lookup h4 n = lookup h3 n"
    using setHeader_lookup [OF co, of n] n(4) by simp
  also have "\<dots> = lookup h2 n"
    using apply_body_lookup [OF bd, of n] n(5) by simp
  also have "\<dots> = lookup h1 n"
    using apply_tenancy_lookup [OF te, of n] n(3) by (simp split: option.splits)
  also have "\<dots> = lookup h0 n"
    using auth_headers_other [OF au n(2) n(1)] .
  finally have "lookup h4 n = lookup h0 n" .
  moreover have "h = h4" using d assms(3) by simp
  ultimately show ?thesis by (simp add: values_of_def)
qed

text \<open>
  C5. Let \<open>hb\<close> be a header container built from the pairs \<open>qs\<close>, and let the same
  multiset of pairs be given as an array of pairs \<open>ps\<close> and as a plain mapping with
  the entries \<open>kvs\<close>, in any order. Normalization returns the container as it is and
  gives, for the array and for the mapping, containers that carry exactly the
  multiset of pairs, as \<open>hb\<close> does: the names of the pairs and under each name the
  values of the pairs of that name, with their multiplicities. If \<open>request\<close> returns
  for the container, it returns for the array and for the mapping too; the three
  outbound header containers are equivalent, under every name that \<open>request\<close>
  itself does not write (the allow-list, the API key, the tenant ID, the correlation
  ID, \<open>Content-Type\<close>) they hold the values of the pairs of that name with their
  multiplicities, and the body is the same.
\<close>

theorem request_header_shapes_equivalent:
  assumes "append_pairs [] qs = Inr hb"
    and "mset ps = mset qs"
    and "mset kvs = mset qs"
    and "request K S E (req\<lparr>headers := HHeaders hb\<rparr>) = Inr d"
  shows "\<exists>g1 g2 d1 d2 h h1 h2.
           ensureHeadersIsObject (HHeaders hb) = Inr hb \<and>
           ensureHeadersIsObject (HPairs (map (\<lambda>(k, v). [k, v]) ps)) = Inr g1 \<and>
           ensureHeadersIsObject (HObject kvs) = Inr g2 \<and>
           carries hb (mset qs) \<and> carries g1 (mset qs) \<and> carries g2 (mset qs) \<and>
           request K S E (req\<lparr>headers := HPairs (map (\<lambda>(k, v). [k, v]) ps)\<rparr>) = Inr d1 \<and>
           request K S E (req\<lparr>headers := HObject kvs\<rparr>) = Inr d2 \<and>
           headers d = HHeaders h \<and> headers d1 = HHeaders h1 \<and> headers d2 = HHeaders h2 \<and>
           equivalent_headers h h1 \<and> equivalent_headers h h2 \<and>
           body d1 = body d \<and> body d2 = body d \<and>
           (\<forall>n. toLowerCase n \<notin> toLowerCase `
                  (set (Header_values K) \<union>
                   {API_KEY K, TENANT_ID K, CORRELATION_ID K, str ''Content-Type''}) \<longrightarrow>
                mset (values_of h n) =
                  image_mset snd
                    (filter_mset (\<lambda>p. toLowerCase n = toLowerCase (fst p)) (mset qs)) \<and>
                mset (values_of h1 n) = mset (values_of h n) \<and>
                mset (values_of h2 n) = mset (values_of h n))"
proof -
  have en: "ensureHeadersIsObject (HHeaders hb) = Inr hb" by simp
  from append_pairs_permuted [OF assms(1,2)] obtain g1 where
    g1: "append_pairs [] ps = Inr g1" and e1: "equivalent_headers hb g1"
    using equivalent_sym by blast
  from append_pairs_permuted [OF assms(1,3)] obtain g2 where
    g2: "append_pairs [] kvs = Inr g2" and e2: "equivalent_headers hb g2"
    using equivalent_sym by blast
  have en1: "ensureHeadersIsObject (HPairs (map (\<lambda>(k, v). [k, v]) ps)) = Inr g1"
    using g1 by (simp only: ensureHeadersIsObject.simps destructure_pair)
  have en2: "ensureHeadersIsObject (HObject kvs) = Inr g2"
    using g2 by simp
  have cb: "carries hb (mset qs)"
    using assms(1) by (rule append_pairs_carries)
  have c1: "carries g1 (mset qs)"
    using append_pairs_carries [OF g1] assms(2) by simp
  have c2: "carries g2 (mset qs)"
    using append_pairs_carries [OF g2] assms(3) by simp
  from request_equivalent [OF assms(4) en en1 e1] obtain d1 h h1 where
    r1: "request K S E (req\<lparr>headers := HPairs (map (\<lambda>(k, v). [k, v]) ps)\<rparr>) = Inr d1"
    and hd: "headers d = HHeaders h" and hd1: "headers d1 = HHeaders h1"
    and q1: "equivalent_headers h h1" and b1: "body d1 = body d"
    by blast
  from request_equivalent [OF assms(4) en en2 e2] obtain d2 h' h2 where
    r2: "request K S E (req\<lparr>headers := HObject kvs\<rparr>) = Inr d2"
    and hd': "headers d = HHeaders h'" and hd2: "headers d2 = HHeaders h2"
    and q2: "equivalent_headers h' h2" and b2: "body d2 = body d"
    by blast
  have "h' = h" using hd hd' by simp
  then have q2': "equivalent_headers h h2" using q2 by simp
  have pin: "\<forall>n. toLowerCase n \<notin> toLowerCase `
                  (set (Header_values K) \<union>
                   {API_KEY K, TENANT_ID K, CORRELATION_ID K, str ''Content-Type''}) \<longrightarrow>
                mset (values_of h n) =
                  image_mset snd
                    (filter_mset (\<lambda>p. toLowerCase n = toLowerCase (fst p)) (mset qs)) \<and>
                mset (values_of h1 n) = mset (values_of h n) \<and>
                mset (values_of h2 n) = mset (values_of h n)"
  proof (intro allI impI)
    fix n
    assume n: "toLowerCase n \<notin> toLowerCase `
                  (set (Header_values K) \<union>
                   {API_KEY K, TENANT_ID K, CORRELATION_ID K, str ''Content-Type''})"
    have "values_of h n = values_of hb n"
      using request_other [OF assms(4) _ hd n] by simp
    then have "mset (values_of h n) =
                  image_mset snd
                    (filter_mset (\<lambda>p. toLowerCase n = toLowerCase (fst p)) (mset qs))"
      using cb by (simp add: carries_def)
    moreover have "mset (values_of h1 n) = mset (values_of h n)"
      using q1 by (simp add: equivalent_headers_def)
    moreover have "mset (values_of h2 n) = mset (values_of h n)"
      using q2' by (simp add: equivalent_headers_def)
    ultimately show "mset (values_of h n) =
                  image_mset snd
                    (filter_mset (\<lambda>p. toLowerCase n = toLowerCase (fst p)) (mset qs)) \<and>
                mset (values_of h1 n) = mset (values_of h n) \<and>
                mset (values_of h2 n) = mset (values_of h n)"
      by (intro conjI)
  qed
  have "ensureHeadersIsObject (HHeaders hb) = Inr hb \<and>
        ensureHeadersIsObject (HPairs (map (\<lambda>(k, v). [k, v]) ps)) = Inr g1 \<and>
        ensureHeadersIsObject (HObject kvs) = Inr g2 \<and>
        carries hb (mset qs) \<and> carries g1 (mset qs) \<and> carries g2 (mset qs) \<and>
        request K S E (req\<lparr>headers := HPairs (map (\<lambda>(k, v). [k, v]) ps)\<rparr>) = Inr d1 \<and>
        request K S E (req\<lparr>headers := HObject kvs\<rparr>) = Inr d2 \<and>
        headers d = HHeaders h \<and> headers d1 = HHeaders h1 \<and> headers d2 = HHeaders h2 \<and>
        equivalent_headers h h1 \<and> equivalent_headers h h2 \<and>
        body d1 = body d \<and> body d2 = body d \<and>
        (\<forall>n. toLowerCase n \<notin> toLowerCase `
                  (set (Header_values K) \<union>
                   {API_KEY K, TENANT_ID K, CORRELATION_ID K, str ''Content-Type''}) \<longrightarrow>
                mset (values_of h n) =
                  image_mset snd
                    (filter_mset (\<lambda>p. toLowerCase n = toLowerCase (fst p)) (mset qs)) \<and>
                mset (values_of h1 n) = mset (values_of h n) \<and>
                mset (values_of h2 n) = mset (values_of h n))"
    using en en1 en2 cb c1 c2 r1 r2 hd hd1 hd2 q1 q2' b1 b2 pin by (intro conjI)
  then show ?thesis by (intro exI)
qed

theorem request_header_shapes_equivalent_witness:
  "append_pairs []
      [(str ''Accept'', str ''text/html''), (str ''accept'', str ''text/plain''),
       (str ''X-Trace'', str ''1'')] =
     Inr [(str ''Accept'', [str ''text/html'', str ''text/plain'']),
          (str ''X-Trace'', [str ''1''])] \<and>
   mset [(str ''X-Trace'', str ''1''), (str ''accept'', str ''text/plain''),
         (str ''Accept'', str ''text/html'')] =
     mset [(str ''Accept'', str ''text/html''), (str ''accept'', str ''text/plain''),
           (str ''X-Trace'', str ''1'')] \<and>
   mset [(str ''accept'', str ''text/plain''), (str ''X-Trace'', str ''1''),
         (str ''Accept'', str ''text/html'')] =
     mset [(str ''Accept'', str ''text/html''), (str ''accept'', str ''text/plain''),
           (str ''X-Trace'', str ''1'')] \<and>
   request example_consts example_stringify example_env
     (\<lparr>http_method = Some (str ''GET''), headers = HUndefined, body = None, ctx = None\<rparr>
      \<lparr>headers := HHeaders [(str ''Accept'', [str ''text/html'', str ''text/plain'']),
                           (str ''X-Trace'', [str ''1''])]\<rparr>) =
   Inr \<lparr>http_method = Some (str ''GET''),
        headers = HHeaders
          [(str ''Accept'', [str ''text/html'', str ''text/plain'']), (str ''X-Trace'', [str ''1'']),
           (str ''x-budibase-api-key'', [str ''secret'']),
           (str ''x-budibase-tenant-id'', [str ''tenant1'']),
           (str ''x-budibase-correlation-id'', [str ''c0ffee''])],
        body = None, ctx = None\<rparr> \<and>
   (\<exists>g1 g2 d1 d2 h h1 h2.
      ensureHeadersIsObject
        (HHeaders [(str ''Accept'', [str ''text/html'', str ''text/plain'']),
                   (str ''X-Trace'', [str ''1''])]) =
        Inr [(str ''Accept'', [str ''text/html'', str ''text/plain'']),
             (str ''X-Trace'', [str ''1''])] \<and>
      ensureHeadersIsObject (HPairs (map (\<lambda>(k, v). [k, v])
        [(str ''X-Trace'', str ''1''), (str ''accept'', str ''text/plain''),
         (str ''Accept'', str ''text/html'')])) = Inr g1 \<and>
      ensureHeadersIsObject (HObject
        [(str ''accept'', str ''text/plain''), (str ''X-Trace'', str ''1''),
         (str ''Accept'', str ''text/html'')]) = Inr g2 \<and>
      carries [(str ''Accept'', [str ''text/html'', str ''text/plain'']),
               (str ''X-Trace'', [str ''1''])]
        (mset [(str ''Accept'', str ''text/html''), (str ''accept'', str ''text/plain''),
               (str ''X-Trace'', str ''1'')]) \<and>
      carries g1
        (mset [(str ''Accept'', str ''text/html''), (str ''accept'', str ''text/plain''),
               (str ''X-Trace'', str ''1'')]) \<and>
      carries g2
        (mset [(str ''Accept'', str ''text/html''), (str ''accept'', str ''text/plain''),
               (str ''X-Trace'', str ''1'')]) \<and>
      request example_consts example_stringify example_env
        (\<lparr>http_method = Some (str ''GET''), headers = HUndefined, body = None, ctx = None\<rparr>
         \<lparr>headers := HPairs (map (\<lambda>(k, v). [k, v])
            [(str ''X-Trace'', str ''1''), (str ''accept'', str ''text/plain''),
             (str ''Accept'', str ''text/html'')])\<rparr>) =
        Inr d1 \<and>
      request example_consts example_stringify example_env
        (\<lparr>http_method = Some (str ''GET''), headers = HUndefined, body = None, ctx = None\<rparr>
         \<lparr>headers := HObject
            [(str ''accept'', str ''text/plain''), (str ''X-Trace'', str ''1''),
             (str ''Accept'', str ''text/html'')]\<rparr>) =
        Inr d2 \<and>
      headers 
        \<lparr>http_method = Some (str ''GET''),
        headers = HHeaders
          [(str ''Accept'', [str ''text/html'', str ''text/plain'']), (str ''X-Trace'', [str ''1'']),
           (str ''x-budibase-api-key'', [str ''secret'']),
           (str ''x-budibase-tenant-id'', [str ''tenant1'']),
           (str ''x-budibase-correlation-id'', [str ''c0ffee''])],
        body = None, ctx = None\<rparr> = HHeaders h \<and>
      headers d1 = HHeaders h1 \<and> headers d2 = HHeaders h2 \<and>
      equivalent_headers h h1 \<and> equivalent_headers h h2 \<and>
      body d1 = body 
        \<lparr>http_method = Some (str ''GET''),
        headers = HHeaders
          [(str ''Accept'', [str ''text/html'', str ''text/plain'']), (str ''X-Trace'', [str ''1'']),
           (str ''x-budibase-api-key'', [str ''secret'']),
           (str ''x-budibase-tenant-id'', [str ''tenant1'']),
           (str ''x-budibase-correlation-id'', [str ''c0ffee''])],
        body = None, ctx = None\<rparr> \<and> body d2 = body 
        \<lparr>http_method = Some (str ''GET''),
        headers = HHeaders
          [(str ''Accept'', [str ''text/html'', str ''text/plain'']), (str ''X-Trace'', [str ''1'']),
           (str ''x-budibase-api-key'', [str ''secret'']),
           (str ''x-budibase-tenant-id'', [str ''tenant1'']),
           (str ''x-budibase-correlation-id'', [str ''c0ffee''])],
        body = None, ctx = None\<rparr> \<and>
      (\<forall>n. toLowerCase n \<notin> toLowerCase `
             (set (Header_values example_consts) \<union>
              {API_KEY example_consts, TENANT_ID example_consts,
               CORRELATION_ID example_consts, str ''Content-Type''}) \<longrightarrow>
           mset (values_of h n) =
             image_mset snd
               (filter_mset (\<lambda>p. toLowerCase n = toLowerCase (fst p))
                  (mset [(str ''Accept'', str ''text/html''),
                         (str ''accept'', str ''text/plain''),
                         (str ''X-Trace'', str ''1'')])) \<and>
           mset (values_of h1 n) = mset (values_of h n) \<and>
           mset (values_of h2 n) = mset (values_of h n)))"
proof -
  have built: "append_pairs []
      [(str ''Accept'', str ''text/html''), (str ''accept'', str ''text/plain''),
       (str ''X-Trace'', str ''1'')] =
     Inr [(str ''Accept'', [str ''text/html'', str ''text/plain'']),
          (str ''X-Trace'', [str ''1''])]"
    by code_simp
  have p1: "mset [(str ''X-Trace'', str ''1''), (str ''accept'', str ''text/plain''),
         (str ''Accept'', str ''text/html'')] =
     mset [(str ''Accept'', str ''text/html''), (str ''accept'', str ''text/plain''),
           (str ''X-Trace'', str ''1'')]"
    by (simp add: add_mset_commute)
  have p2: "mset [(str ''accept'', str ''text/plain''), (str ''X-Trace'', str ''1''),
         (str ''Accept'', str ''text/html'')] =
     mset [(str ''Accept'', str ''text/html''), (str ''accept'', str ''text/plain''),
           (str ''X-Trace'', str ''1'')]"
    by (simp add: add_mset_commute)
  have ev: "request example_consts example_stringify example_env
     (\<lparr>http_method = Some (str ''GET''), headers = HUndefined, body = None, ctx = None\<rparr>
      \<lparr>headers := HHeaders [(str ''Accept'', [str ''text/html'', str ''text/plain'']),
                           (str ''X-Trace'', [str ''1''])]\<rparr>) =
   Inr \<lparr>http_method = Some (str ''GET''),
        headers = HHeaders
          [(str ''Accept'', [str ''text/html'', str ''text/plain'']), (str ''X-Trace'', [str ''1'']),
           (str ''x-budibase-api-key'', [str ''secret'']),
           (str ''x-budibase-tenant-id'', [str ''tenant1'']),
           (str ''x-budibase-correlation-id'', [str ''c0ffee''])],
        body = None, ctx = None\<rparr>"
    by code_simp
  show ?thesis
    using request_header_shapes_equivalent [OF built p1 p2 ev] built p1 p2 ev
    by simp
qed

end
